theory Spec2Isabelle
  imports Main "HOL-Library.Sublist"
begin

section \<open>The \<open>step ca ssh-certificate\<close> command (command/ssh/certificate.go)\<close>

text \<open>
  The action \<open>sshCertificateAction\<close> is embedded as a function of the command-line
  context, of the collaborators it calls (their answers are the fields of a record
  \<open>world\<close>), and of a state that holds the file system and the log of every
  collaborator call that touches the network, the file system, the terminal or the
  agent socket. Every \<open>return err\<close> of the source is a branch that returns
  \<open>Some err\<close> together with the state reached so far.
\<close>

subsection \<open>Values\<close>

type_synonym bytes = string

definition LF :: char where
  "LF = CHR 0x0A"

text \<open>The file modes of the source, written in octal there: \<open>0600\<close> and \<open>0644\<close>.\<close>

definition mode_0600 :: nat where
  "mode_0600 = 6 * 8 * 8"

definition mode_0644 :: nat where
  "mode_0644 = 6 * 8 * 8 + 4 * 8 + 4"

text \<open>
  Errors. The first five are the values built by the source itself (through package
  \<open>errs\<close> and \<open>errors\<close>); \<open>External\<close> is an error returned by a collaborator;
  \<open>Panic\<close> is a run-time panic of Go (a nil dereference).
\<close>

datatype error =
    TooFewArguments
  | TooManyArguments
  | RequiredInsecureFlag string
  | IncompatibleFlagWithFlag string string
  | ErrorsNew string
  | ErrorsWrap error string
  | External string
  | Panic string

text \<open>\<open>errors.Wrap\<close> returns nil when the error it is given is nil.\<close>

definition errors_Wrap :: "error option \<Rightarrow> string \<Rightarrow> error option" where
  "errors_Wrap err msg = (case err of None \<Rightarrow> None | Some e \<Rightarrow> Some (ErrorsWrap e msg))"

datatype certType = SSHUserCert | SSHHostCert

datatype TimeDuration = TimeDuration int

datatype publicKey = PublicKey nat

datatype privateKey = PrivateKey nat

text \<open>
  An \<open>ssh.PublicKey\<close> (a plain key or a certificate): its type name and its wire
  encoding, the result of the method \<open>Marshal\<close>.
\<close>

datatype sshPublicKey = SSHPublicKey (keyType: string) (Marshal: bytes)

datatype certificateFlow = CertificateFlow nat

datatype caClient = CaClient nat

datatype agentConn = AgentConn nat

record SignSSHRequest =
  PublicKey_field :: bytes
  OTT :: string
  Principals :: "string list"
  CertType :: certType
  ValidAfter :: TimeDuration
  ValidBefore :: TimeDuration
  AddUserPublicKey :: bytes

text \<open>
  Modelled from the spec: \<open>api.SignSSHResponse\<close> is declared outside
  command/ssh/certificate.go. The spec's CertificateResponse has the signed certificate
  and an auxiliary certificate whose presence mirrors the auxiliary public key of the
  request; the action reads the auxiliary certificate in add-user mode only.
\<close>

record SignSSHResponse =
  Certificate :: sshPublicKey
  AddUserCertificate :: sshPublicKey

record AddedKey =
  AddedKey_PrivateKey :: "privateKey option"
  AddedKey_Certificate :: sshPublicKey
  AddedKey_Comment :: string

subsection \<open>The command-line context\<close>

text \<open>
  The \<open>cli.Context\<close>: the positional arguments and the flags the action reads.
  \<open>ctx.Set\<close> on a flag is a record update.
\<close>

record "context" =
  args :: "string list"
  flag_token :: string
  flag_host :: bool
  flag_sign :: bool
  flag_add_user :: bool
  flag_principal :: "string list"
  flag_password_file :: string
  flag_provisioner_password_file :: string
  flag_no_password :: bool
  flag_insecure :: bool
  flag_others :: "(string \<times> string) list"

text \<open>\<open>Args.Get\<close> of urfave/cli returns the empty string out of range.\<close>

definition Args_Get :: "string list \<Rightarrow> nat \<Rightarrow> string" where
  "Args_Get as n = (if n < length as then as ! n else [])"

text \<open>
  Modelled from the spec: \<open>errs.NumberOfArguments\<close> is not in
  command/ssh/certificate.go. The spec's invocation surface takes two positional
  arguments; fewer or more is an error.
\<close>

definition NumberOfArguments :: "context \<Rightarrow> nat \<Rightarrow> error option" where
  "NumberOfArguments ctx required =
     (if length (args ctx) < required then Some TooFewArguments
      else if length (args ctx) > required then Some TooManyArguments
      else None)"

text \<open>The local variables of lines 205 to 226.\<close>

record locals =
  subject :: string
  keyFile :: string
  token :: string
  isHost :: bool
  isSign :: bool
  isAddUser :: bool
  principals :: "string list"
  passwordFile :: string
  provisionerPasswordFile :: string
  noPassword :: bool
  insecure :: bool
  validAfter :: TimeDuration
  validBefore :: TimeDuration

definition read_locals :: "context \<Rightarrow> TimeDuration \<Rightarrow> TimeDuration \<Rightarrow> locals" where
  "read_locals ctx va vb =
     \<lparr> subject = Args_Get (args ctx) 0,
       keyFile = Args_Get (args ctx) 1,
       token = flag_token ctx,
       isHost = flag_host ctx,
       isSign = flag_sign ctx,
       isAddUser = flag_add_user ctx,
       principals = flag_principal ctx,
       passwordFile = flag_password_file ctx,
       provisionerPasswordFile = flag_provisioner_password_file ctx,
       noPassword = flag_no_password ctx,
       insecure = flag_insecure ctx,
       validAfter = va,
       validBefore = vb \<rparr>"

subsection \<open>Files, collaborator calls, state\<close>

datatype pemutil_Options =
    ToFile string nat
  | WithPasswordFile string
  | WithPasswordPrompt string

datatype password_source = FromPasswordFile string | FromPrompt string

datatype content =
    PrivateKeyPEM "privateKey option" "password_source option"
  | Data bytes

type_synonym file_entry = "content \<times> nat"

datatype event =
    EvNewCertificateFlow "context"
  | EvGenerateSSHToken "context" string certType "string list" TimeDuration TimeDuration
  | EvGetClient "context" string string
  | EvReadFile string
  | EvGenerateDefaultKeyPair
  | EvSignSSH caClient SignSSHRequest
  | EvSerialize "privateKey option" "pemutil_Options list"
  | EvWriteFile string bytes nat
  | EvPrintSelected string string
  | EvPrintAgentError error
  | EvDial string string
  | EvAgentAdd AddedKey

record state =
  fs :: "string \<rightharpoonup> file_entry"
  trace :: "event list"
  keypairs :: nat

definition emit :: "event \<Rightarrow> state \<Rightarrow> state" where
  "emit ev s = s\<lparr>trace := trace s @ [ev]\<rparr>"

text \<open>
  The collaborators, none of them in command/ssh/certificate.go: each field is the
  answer of one of them to a call. \<open>GenerateDefaultKeyPair\<close> is given the number of
  key pairs generated before, so that two calls may answer differently. \<open>ReadFile\<close>
  is the initial file system's answer: the only read of the action comes before all of
  its writes. \<open>ParseTimeDuration\<close>, \<open>SanitizeSSHUserPrincipal\<close>,
  \<open>ParseAuthorizedKey\<close>, \<open>NewPublicKey\<close> and \<open>MarshalAuthorizedKey\<close> compute
  on their arguments only and leave no event; every other call is logged.
\<close>

record world =
  ParseTimeDuration :: "context \<Rightarrow> error + (TimeDuration \<times> TimeDuration)"
  SanitizeSSHUserPrincipal :: "string \<Rightarrow> string"
  NewCertificateFlow :: "context \<Rightarrow> error + certificateFlow"
  GenerateSSHToken :: "certificateFlow \<Rightarrow> context \<Rightarrow> string \<Rightarrow> certType \<Rightarrow> string list
                         \<Rightarrow> TimeDuration \<Rightarrow> TimeDuration \<Rightarrow> error + string"
  GetClient :: "certificateFlow \<Rightarrow> context \<Rightarrow> string \<Rightarrow> string \<Rightarrow> error + caClient"
  ReadFile :: "string \<Rightarrow> error + bytes"
  ParseAuthorizedKey :: "bytes \<Rightarrow> error + sshPublicKey"
  GenerateDefaultKeyPair :: "nat \<Rightarrow> error + (publicKey \<times> privateKey)"
  NewPublicKey :: "publicKey \<Rightarrow> error + sshPublicKey"
  SignSSH :: "caClient \<Rightarrow> SignSSHRequest \<Rightarrow> error + SignSSHResponse"
  Serialize :: "privateKey option \<Rightarrow> pemutil_Options list \<Rightarrow> error option"
  WriteFile :: "string \<Rightarrow> bytes \<Rightarrow> nat \<Rightarrow> error option"
  MarshalAuthorizedKey :: "sshPublicKey \<Rightarrow> bytes"
  Getenv :: "string \<Rightarrow> string"
  Dial :: "string \<Rightarrow> string \<Rightarrow> error + agentConn"
  AgentAdd :: "agentConn \<Rightarrow> AddedKey \<Rightarrow> error option"

text \<open>
  Modelled from the spec: \<open>pemutil.Serialize\<close> is not in
  command/ssh/certificate.go. The spec's key serialization collaborator writes a private
  key to a password-protected or plaintext encoding on disk, given named options: the
  target path with its permission bits, and the password source (a password file or an
  interactive prompt). Without a password source the encoding is plaintext.
\<close>

fun serialize_target :: "pemutil_Options list \<Rightarrow> (string \<times> nat) option" where
  "serialize_target [] = None"
| "serialize_target (ToFile p m # os) =
     (case serialize_target os of None \<Rightarrow> Some (p, m) | Some t \<Rightarrow> Some t)"
| "serialize_target (WithPasswordFile f # os) = serialize_target os"
| "serialize_target (WithPasswordPrompt q # os) = serialize_target os"

fun serialize_password :: "pemutil_Options list \<Rightarrow> password_source option" where
  "serialize_password [] = None"
| "serialize_password (ToFile p m # os) = serialize_password os"
| "serialize_password (WithPasswordFile f # os) =
     (case serialize_password os of None \<Rightarrow> Some (FromPasswordFile f) | Some t \<Rightarrow> Some t)"
| "serialize_password (WithPasswordPrompt q # os) =
     (case serialize_password os of None \<Rightarrow> Some (FromPrompt q) | Some t \<Rightarrow> Some t)"

definition pemutil_Serialize ::
  "world \<Rightarrow> privateKey option \<Rightarrow> pemutil_Options list \<Rightarrow> state \<Rightarrow> error option \<times> state" where
  "pemutil_Serialize w priv opts s =
     (let s1 = emit (EvSerialize priv opts) s in
      case Serialize w priv opts of
        Some err \<Rightarrow> (Some err, s1)
      | None \<Rightarrow>
          (case serialize_target opts of
             None \<Rightarrow> (None, s1)
           | Some (p, m) \<Rightarrow>
               (None, s1\<lparr>fs := (fs s1)(p \<mapsto> (PrivateKeyPEM priv (serialize_password opts), m))\<rparr>)))"

text \<open>
  Modelled from the spec: \<open>utils.WriteFile\<close> is not in command/ssh/certificate.go.
  A write that succeeds puts the data at the path with the given permission bits; a write
  that fails returns its error.
\<close>

definition utils_WriteFile ::
  "world \<Rightarrow> string \<Rightarrow> bytes \<Rightarrow> nat \<Rightarrow> state \<Rightarrow> error option \<times> state" where
  "utils_WriteFile w path data m s =
     (let s1 = emit (EvWriteFile path data m) s in
      case WriteFile w path data m of
        Some err \<Rightarrow> (Some err, s1)
      | None \<Rightarrow> (None, s1\<lparr>fs := (fs s1)(path \<mapsto> (Data data, m))\<rparr>))"

subsection \<open>String helpers of the Go library\<close>

definition HasSuffix :: "string \<Rightarrow> string \<Rightarrow> bool" where
  "HasSuffix s sfx =
     (length sfx \<le> length s \<and> drop (length s - length sfx) s = sfx)"

text \<open>\<open>bytes.LastIndex\<close> for a separator of one byte; \<open>None\<close> is the \<open>-1\<close> of Go.\<close>

fun LastIndex :: "bytes \<Rightarrow> char \<Rightarrow> nat option" where
  "LastIndex [] c = None"
| "LastIndex (x # xs) c =
     (case LastIndex xs c of
        Some i \<Rightarrow> Some (Suc i)
      | None \<Rightarrow> if x = c then Some 0 else None)"

subsection \<open>marshalPublicKey and sshAddKeyToAgent\<close>

definition marshalPublicKey :: "world \<Rightarrow> sshPublicKey \<Rightarrow> string \<Rightarrow> bytes" where
  "marshalPublicKey w key subj =
     (let b = MarshalAuthorizedKey w key in
      case LastIndex b LF of
        Some i \<Rightarrow> take i b @ '' '' @ subj @ [LF]
      | None \<Rightarrow> b @ '' '' @ subj @ [LF])"

definition sshAddKeyToAgent ::
  "world \<Rightarrow> string \<Rightarrow> sshPublicKey \<Rightarrow> privateKey option \<Rightarrow> state \<Rightarrow> error option \<times> state" where
  "sshAddKeyToAgent w subj cert priv s =
     (let socket = Getenv w ''SSH_AUTH_SOCK'';
          s1 = emit (EvDial ''unix'' socket) s in
      case Dial w ''unix'' socket of
        Inl err \<Rightarrow> (Some (ErrorsWrap err ''error connecting with ssh-agent''), s1)
      | Inr conn \<Rightarrow>
          (let key = \<lparr> AddedKey_PrivateKey = priv, AddedKey_Certificate = cert,
                       AddedKey_Comment = subj \<rparr>
           in (errors_Wrap (AgentAdd w conn key) ''error adding key to agent'',
               emit (EvAgentAdd key) s1)))"

subsection \<open>sshCertificateAction\<close>

text \<open>The \<open>switch\<close> of lines 233 to 244: the first case that holds returns its error.\<close>

definition validation :: "locals \<Rightarrow> error option" where
  "validation l =
     (if noPassword l \<and> \<not> insecure l then
        Some (RequiredInsecureFlag ''no-password'')
      else if noPassword l \<and> passwordFile l \<noteq> [] then
        Some (IncompatibleFlagWithFlag ''no-password'' ''password-file'')
      else if token l \<noteq> [] \<and> provisionerPasswordFile l \<noteq> [] then
        Some (IncompatibleFlagWithFlag ''token'' ''provisioner-password-file'')
      else if isHost l \<and> isAddUser l then
        Some (IncompatibleFlagWithFlag ''host'' ''add-user'')
      else if isAddUser l \<and> length (principals l) > 1 then
        Some (ErrorsNew ''flag '--add-user' is incompatible with more than one principal'')
      else None)"

text \<open>Lines 208 to 211 and 246 to 250: the names of the files.\<close>

definition baseName_of :: "locals \<Rightarrow> string" where
  "baseName_of l =
     (if isSign l \<and> HasSuffix (keyFile l) ''.pub''
      then take (length (keyFile l) - 4) (keyFile l)
      else keyFile l)"

definition pubFile_of :: "locals \<Rightarrow> string" where
  "pubFile_of l = keyFile l @ ''.pub''"

definition crtFile_of :: "locals \<Rightarrow> string" where
  "crtFile_of l =
     (if isSign l \<and> HasSuffix (keyFile l) ''.pub''
      then baseName_of l @ ''-cert.pub''
      else keyFile l @ ''-cert.pub'')"

text \<open>Lines 252 to 257.\<close>

definition certType_of :: "locals \<Rightarrow> certType" where
  "certType_of l = (if isHost l then SSHHostCert else SSHUserCert)"

text \<open>Lines 259 to 266: by default the first part of the subject is the principal.\<close>

definition principals_of :: "world \<Rightarrow> locals \<Rightarrow> string list" where
  "principals_of w l =
     (if length (principals l) = 0 then
        (if isHost l then principals l @ [subject l]
         else principals l @ [SanitizeSSHUserPrincipal w (subject l)])
      else principals l)"

text \<open>Lines 268 to 281: the certificate flow, the token, the client of the authority.\<close>

definition get_token_and_client ::
  "world \<Rightarrow> context \<Rightarrow> locals \<Rightarrow> state \<Rightarrow> (error + (string \<times> caClient)) \<times> state" where
  "get_token_and_client w ctx l s =
     (let s1 = emit (EvNewCertificateFlow ctx) s in
      case NewCertificateFlow w ctx of
        Inl err \<Rightarrow> (Inl err, s1)
      | Inr flow \<Rightarrow>
          (let (tok, s2) =
                 (if length (token l) = 0 then
                    (GenerateSSHToken w flow ctx (subject l) (certType_of l) (principals_of w l)
                        (validAfter l) (validBefore l),
                     emit (EvGenerateSSHToken ctx (subject l) (certType_of l) (principals_of w l)
                        (validAfter l) (validBefore l)) s1)
                  else (Inr (token l), s1))
           in case tok of
                Inl err \<Rightarrow> (Inl err, s2)
              | Inr t \<Rightarrow>
                  (let s3 = emit (EvGetClient ctx (subject l) t) s2 in
                   case GetClient w flow ctx (subject l) t of
                     Inl err \<Rightarrow> (Inl err, s3)
                   | Inr caClient \<Rightarrow> (Inr (t, caClient), s3))))"

text \<open>Lines 283 to 308: the key to certify, read and parsed, or generated.\<close>

definition get_key ::
  "world \<Rightarrow> locals \<Rightarrow> state \<Rightarrow> (error + (sshPublicKey \<times> privateKey option)) \<times> state" where
  "get_key w l s =
     (if isSign l then
        (let s1 = emit (EvReadFile (keyFile l)) s in
         case ReadFile w (keyFile l) of
           Inl err \<Rightarrow> (Inl err, s1)
         | Inr inp \<Rightarrow>
             (case ParseAuthorizedKey w inp of
                Inl err \<Rightarrow> (Inl (ErrorsWrap err ''error parsing public key''), s1)
              | Inr sshPub \<Rightarrow> (Inr (sshPub, None), s1)))
      else
        (let s1 = (emit EvGenerateDefaultKeyPair s)\<lparr>keypairs := Suc (keypairs s)\<rparr> in
         case GenerateDefaultKeyPair w (keypairs s) of
           Inl err \<Rightarrow> (Inl err, s1)
         | Inr (pub, priv) \<Rightarrow>
             (case NewPublicKey w pub of
                Inl err \<Rightarrow> (Inl (ErrorsWrap err ''error creating public key''), s1)
              | Inr sshPub \<Rightarrow> (Inr (sshPub, Some priv), s1))))"

text \<open>
  Lines 310 to 323: the second key pair of add-user mode. \<open>None\<close> stands for the nil
  values that \<open>sshAuPub\<close> and \<open>auPriv\<close> keep without add-user.
\<close>

definition get_add_user_key ::
  "world \<Rightarrow> locals \<Rightarrow> state \<Rightarrow> (error + (sshPublicKey \<times> privateKey) option) \<times> state" where
  "get_add_user_key w l s =
     (if isAddUser l then
        (let s1 = (emit EvGenerateDefaultKeyPair s)\<lparr>keypairs := Suc (keypairs s)\<rparr> in
         case GenerateDefaultKeyPair w (keypairs s) of
           Inl err \<Rightarrow> (Inl err, s1)
         | Inr (auPub, auPriv) \<Rightarrow>
             (case NewPublicKey w auPub of
                Inl err \<Rightarrow> (Inl (ErrorsWrap err ''error creating public key''), s1)
              | Inr sshAuPub \<Rightarrow> (Inr (Some (sshAuPub, auPriv)), s1)))
      else (Inr None, s))"

definition sshAuPubBytes_of :: "(sshPublicKey \<times> privateKey) option \<Rightarrow> bytes" where
  "sshAuPubBytes_of au = (case au of None \<Rightarrow> [] | Some (sshAuPub, auPriv) \<Rightarrow> Marshal sshAuPub)"

text \<open>Lines 325 to 333: the request to the authority.\<close>

definition sign_request ::
  "world \<Rightarrow> locals \<Rightarrow> string \<Rightarrow> sshPublicKey \<Rightarrow> (sshPublicKey \<times> privateKey) option
     \<Rightarrow> SignSSHRequest" where
  "sign_request w l tok sshPub au =
     \<lparr> PublicKey_field = Marshal sshPub,
       OTT = tok,
       Principals = principals_of w l,
       CertType = certType_of l,
       ValidAfter = validAfter l,
       ValidBefore = validBefore l,
       AddUserPublicKey = sshAuPubBytes_of au \<rparr>"

text \<open>
  Lines 339 to 359: the private key, with a password unless \<open>--no-password --insecure\<close>,
  and the public key.
\<close>

definition private_key_options :: "locals \<Rightarrow> pemutil_Options list" where
  "private_key_options l =
     [ToFile (keyFile l) mode_0600] @
     (if noPassword l \<and> insecure l then []
      else if passwordFile l \<noteq> [] then [WithPasswordFile (passwordFile l)]
      else [WithPasswordPrompt ''Please enter the password to encrypt the private key''])"

definition write_key_files ::
  "world \<Rightarrow> locals \<Rightarrow> sshPublicKey \<Rightarrow> privateKey option \<Rightarrow> state \<Rightarrow> error option \<times> state" where
  "write_key_files w l sshPub priv s =
     (if \<not> isSign l then
        (case pemutil_Serialize w priv (private_key_options l) s of
           (Some err, s1) \<Rightarrow> (Some err, s1)
         | (None, s1) \<Rightarrow>
             utils_WriteFile w (pubFile_of l) (marshalPublicKey w sshPub (subject l)) mode_0644 s1)
      else (None, s))"

text \<open>Lines 361 to 364.\<close>

definition write_certificate ::
  "world \<Rightarrow> locals \<Rightarrow> SignSSHResponse \<Rightarrow> state \<Rightarrow> error option \<times> state" where
  "write_certificate w l resp s =
     utils_WriteFile w (crtFile_of l) (marshalPublicKey w (Certificate resp) (subject l))
       mode_0644 s"

text \<open>
  Lines 366 to 378. Without the second key pair \<open>sshAuPub\<close> is nil, and serializing it
  would dereference nil.
\<close>

definition write_add_user_files ::
  "world \<Rightarrow> locals \<Rightarrow> SignSSHResponse \<Rightarrow> (sshPublicKey \<times> privateKey) option \<Rightarrow> state
     \<Rightarrow> error option \<times> state" where
  "write_add_user_files w l resp au s =
     (if isAddUser l then
        (let id = SanitizeSSHUserPrincipal w (subject l) @ ''-provisioner'' in
         case au of
           None \<Rightarrow> (Some (Panic ''nil pointer dereference''), s)
         | Some (sshAuPub, auPriv) \<Rightarrow>
             (case pemutil_Serialize w (Some auPriv)
                     [ToFile (baseName_of l @ ''-provisioner'') mode_0600] s of
                (Some err, s1) \<Rightarrow> (Some err, s1)
              | (None, s1) \<Rightarrow>
                  (case utils_WriteFile w (baseName_of l @ ''-provisioner.pub'')
                          (marshalPublicKey w sshAuPub id) mode_0644 s1 of
                     (Some err, s2) \<Rightarrow> (Some err, s2)
                   | (None, s2) \<Rightarrow>
                       utils_WriteFile w (baseName_of l @ ''-provisioner-cert.pub'')
                         (marshalPublicKey w (AddUserCertificate resp) id) mode_0644 s2)))
      else (None, s))"

text \<open>Lines 380 to 399: the report, and the attempt to add the key to the agent.\<close>

definition print_keys :: "locals \<Rightarrow> state \<Rightarrow> state" where
  "print_keys l s =
     (let s1 = (if \<not> isSign l then
                  emit (EvPrintSelected ''Public Key'' (pubFile_of l))
                    (emit (EvPrintSelected ''Private Key'' (keyFile l)) s)
                else s)
      in emit (EvPrintSelected ''Certificate'' (crtFile_of l)) s1)"

definition print_add_user :: "locals \<Rightarrow> state \<Rightarrow> state" where
  "print_add_user l s =
     (if isAddUser l then
        emit (EvPrintSelected ''Provisioner Certificate'' (baseName_of l @ ''-provisioner-cert.pub''))
          (emit (EvPrintSelected ''Provisioner Public Key'' (baseName_of l @ ''-provisioner.pub''))
            (emit (EvPrintSelected ''Provisioner Private Key'' (baseName_of l @ ''-provisioner'')) s))
      else s)"

definition report_and_register ::
  "world \<Rightarrow> locals \<Rightarrow> SignSSHResponse \<Rightarrow> privateKey option \<Rightarrow> state \<Rightarrow> error option \<times> state" where
  "report_and_register w l resp priv s =
     (let s1 = print_keys l s;
          s3 = (case sshAddKeyToAgent w (subject l) (Certificate resp) priv s1 of
                  (Some err, s2) \<Rightarrow> emit (EvPrintAgentError err) s2
                | (None, s2) \<Rightarrow> emit (EvPrintSelected ''SSH Agent'' ''yes'') s2)
      in (None, print_add_user l s3))"

text \<open>Lines 338 to 378: the files, written one after the other.\<close>

definition write_files ::
  "world \<Rightarrow> locals \<Rightarrow> sshPublicKey \<Rightarrow> privateKey option \<Rightarrow> (sshPublicKey \<times> privateKey) option
     \<Rightarrow> SignSSHResponse \<Rightarrow> state \<Rightarrow> error option \<times> state" where
  "write_files w l sshPub priv au resp s =
     (case write_key_files w l sshPub priv s of
        (Some err, s1) \<Rightarrow> (Some err, s1)
      | (None, s1) \<Rightarrow>
          (case write_certificate w l resp s1 of
             (Some err, s2) \<Rightarrow> (Some err, s2)
           | (None, s2) \<Rightarrow> write_add_user_files w l resp au s2))"

text \<open>Lines 338 to 399, after the authority has answered.\<close>

definition write_and_register ::
  "world \<Rightarrow> locals \<Rightarrow> sshPublicKey \<Rightarrow> privateKey option \<Rightarrow> (sshPublicKey \<times> privateKey) option
     \<Rightarrow> SignSSHResponse \<Rightarrow> state \<Rightarrow> error option \<times> state" where
  "write_and_register w l sshPub priv au resp s =
     (case write_files w l sshPub priv au resp s of
        (Some err, s1) \<Rightarrow> (Some err, s1)
      | (None, s1) \<Rightarrow> report_and_register w l resp priv s1)"

text \<open>Lines 268 to 399, after the validation.\<close>

definition issue :: "world \<Rightarrow> context \<Rightarrow> locals \<Rightarrow> state \<Rightarrow> error option \<times> state" where
  "issue w ctx l s =
     (case get_token_and_client w ctx l s of
        (Inl err, s1) \<Rightarrow> (Some err, s1)
      | (Inr (tok, caClient), s1) \<Rightarrow>
          (case get_key w l s1 of
             (Inl err, s2) \<Rightarrow> (Some err, s2)
           | (Inr (sshPub, priv), s2) \<Rightarrow>
               (case get_add_user_key w l s2 of
                  (Inl err, s3) \<Rightarrow> (Some err, s3)
                | (Inr au, s3) \<Rightarrow>
                    (let req = sign_request w l tok sshPub au;
                         s4 = emit (EvSignSSH caClient req) s3 in
                     case SignSSH w caClient req of
                       Inl err \<Rightarrow> (Some err, s4)
                     | Inr resp \<Rightarrow> write_and_register w l sshPub priv au resp s4))))"

text \<open>
  The action. Line 230 sets the flag \<open>password-file\<close> of the context to the value of
  \<open>provisioner-password-file\<close>, after the local variables have been read.
\<close>

definition sshCertificateAction :: "world \<Rightarrow> context \<Rightarrow> state \<Rightarrow> error option \<times> state" where
  "sshCertificateAction w ctx s =
     (case NumberOfArguments ctx 2 of
        Some err \<Rightarrow> (Some err, s)
      | None \<Rightarrow>
          (case ParseTimeDuration w ctx of
             Inl err \<Rightarrow> (Some err, s)
           | Inr (va, vb) \<Rightarrow>
               (let l = read_locals ctx va vb;
                    ctx' = ctx\<lparr>flag_password_file := provisionerPasswordFile l\<rparr>
                in case validation l of
                     Some err \<Rightarrow> (Some err, s)
                   | None \<Rightarrow> issue w ctx' l s)))"

section \<open>Definitions for the properties\<close>

subsection \<open>Kinds of events\<close>

text \<open>
  The calls before the signing request, the writes, and the report at the end (prints
  and agent).
\<close>

fun is_prepare :: "event \<Rightarrow> bool" where
  "is_prepare (EvNewCertificateFlow c) = True"
| "is_prepare (EvGenerateSSHToken c subj ct ps va vb) = True"
| "is_prepare (EvGetClient c subj tok) = True"
| "is_prepare (EvReadFile p) = True"
| "is_prepare EvGenerateDefaultKeyPair = True"
| "is_prepare ev = False"

fun is_write :: "event \<Rightarrow> bool" where
  "is_write (EvSerialize priv opts) = True"
| "is_write (EvWriteFile p d m) = True"
| "is_write ev = False"

fun is_report :: "event \<Rightarrow> bool" where
  "is_report (EvPrintSelected a b) = True"
| "is_report (EvPrintAgentError err) = True"
| "is_report (EvDial n a) = True"
| "is_report (EvAgentAdd k) = True"
| "is_report ev = False"

subsection \<open>The writes, as a list run in order\<close>

text \<open>The error of a write in a world, and what a write that succeeds does to the files.\<close>

fun write_failure :: "world \<Rightarrow> event \<Rightarrow> error option" where
  "write_failure w (EvSerialize priv opts) = Serialize w priv opts"
| "write_failure w (EvWriteFile p d m) = WriteFile w p d m"
| "write_failure w ev = None"

fun apply_write :: "(string \<rightharpoonup> file_entry) \<Rightarrow> event \<Rightarrow> (string \<rightharpoonup> file_entry)" where
  "apply_write f (EvSerialize priv opts) =
     (case serialize_target opts of
        None \<Rightarrow> f
      | Some (p, m) \<Rightarrow> f(p \<mapsto> (PrivateKeyPEM priv (serialize_password opts), m)))"
| "apply_write f (EvWriteFile p d m) = f(p \<mapsto> (Data d, m))"
| "apply_write f ev = f"

definition apply_writes :: "event list \<Rightarrow> (string \<rightharpoonup> file_entry) \<Rightarrow> (string \<rightharpoonup> file_entry)" where
  "apply_writes evs f = foldl apply_write f evs"

fun perform :: "world \<Rightarrow> event \<Rightarrow> state \<Rightarrow> error option \<times> state" where
  "perform w (EvSerialize priv opts) s = pemutil_Serialize w priv opts s"
| "perform w (EvWriteFile p d m) s = utils_WriteFile w p d m s"
| "perform w ev s = (None, s)"

fun run_writes :: "world \<Rightarrow> event list \<Rightarrow> state \<Rightarrow> error option \<times> state" where
  "run_writes w [] s = (None, s)"
| "run_writes w (ev # evs) s =
     (case perform w ev s of
        (Some err, s1) \<Rightarrow> (Some err, s1)
      | (None, s1) \<Rightarrow> run_writes w evs s1)"

text \<open>
  The writes of lines 338 to 378 as one list, in the order of the spec's file layout:
  private key and public key (not in sign mode), certificate, then the three files of
  the second key pair. It is shown below that \<open>write_files\<close> runs this list.
\<close>

definition planned_writes ::
  "world \<Rightarrow> locals \<Rightarrow> sshPublicKey \<Rightarrow> privateKey option \<Rightarrow> (sshPublicKey \<times> privateKey) option
     \<Rightarrow> SignSSHResponse \<Rightarrow> event list" where
  "planned_writes w l sshPub priv au resp =
     (if isSign l then []
      else [EvSerialize priv (private_key_options l),
            EvWriteFile (keyFile l @ ''.pub'') (marshalPublicKey w sshPub (subject l)) mode_0644]) @
     [EvWriteFile (crtFile_of l) (marshalPublicKey w (Certificate resp) (subject l)) mode_0644] @
     (case au of
        None \<Rightarrow> []
      | Some (sshAuPub, auPriv) \<Rightarrow>
          [EvSerialize (Some auPriv) [ToFile (baseName_of l @ ''-provisioner'') mode_0600],
           EvWriteFile (baseName_of l @ ''-provisioner.pub'')
             (marshalPublicKey w sshAuPub (SanitizeSSHUserPrincipal w (subject l) @ ''-provisioner''))
             mode_0644,
           EvWriteFile (baseName_of l @ ''-provisioner-cert.pub'')
             (marshalPublicKey w (AddUserCertificate resp)
                (SanitizeSSHUserPrincipal w (subject l) @ ''-provisioner''))
             mode_0644])"

text \<open>What lines 387 to 391 print about the agent: the warning, or \<open>yes\<close>.\<close>

definition agent_report :: "world \<Rightarrow> locals \<Rightarrow> SignSSHResponse \<Rightarrow> privateKey option \<Rightarrow> event" where
  "agent_report w l resp priv =
     (case fst (sshAddKeyToAgent w (subject l) (Certificate resp) priv
                  \<lparr>fs = Map.empty, trace = [], keypairs = 0\<rparr>) of
        Some err \<Rightarrow> EvPrintAgentError err
      | None \<Rightarrow> EvPrintSelected ''SSH Agent'' ''yes'')"

text \<open>
  The events of lines 380 to 397 in full: the prints of lines 380 to 384, the agent step
  (the dial; after a dial that succeeds, the add call with the key the source builds at
  lines 417 to 421; then the warning or \<open>yes\<close>), the prints of lines 393 to 397.
\<close>

definition keys_printed :: "locals \<Rightarrow> event list" where
  "keys_printed l =
     (if \<not> isSign l
      then [EvPrintSelected ''Private Key'' (keyFile l), EvPrintSelected ''Public Key'' (pubFile_of l)]
      else []) @
     [EvPrintSelected ''Certificate'' (crtFile_of l)]"

definition add_user_printed :: "locals \<Rightarrow> event list" where
  "add_user_printed l =
     (if isAddUser l
      then [EvPrintSelected ''Provisioner Private Key'' (baseName_of l @ ''-provisioner''),
            EvPrintSelected ''Provisioner Public Key'' (baseName_of l @ ''-provisioner.pub''),
            EvPrintSelected ''Provisioner Certificate'' (baseName_of l @ ''-provisioner-cert.pub'')]
      else [])"

definition agent_key :: "locals \<Rightarrow> SignSSHResponse \<Rightarrow> privateKey option \<Rightarrow> AddedKey" where
  "agent_key l resp priv =
     \<lparr> AddedKey_PrivateKey = priv, AddedKey_Certificate = Certificate resp,
       AddedKey_Comment = subject l \<rparr>"

definition agent_events ::
  "world \<Rightarrow> locals \<Rightarrow> SignSSHResponse \<Rightarrow> privateKey option \<Rightarrow> event list" where
  "agent_events w l resp priv =
     EvDial ''unix'' (Getenv w ''SSH_AUTH_SOCK'') #
     (case Dial w ''unix'' (Getenv w ''SSH_AUTH_SOCK'') of
        Inl err \<Rightarrow> [EvPrintAgentError (ErrorsWrap err ''error connecting with ssh-agent'')]
      | Inr conn \<Rightarrow>
          [EvAgentAdd (agent_key l resp priv),
           (case AgentAdd w conn (agent_key l resp priv) of
              Some err \<Rightarrow> EvPrintAgentError (ErrorsWrap err ''error adding key to agent'')
            | None \<Rightarrow> EvPrintSelected ''SSH Agent'' ''yes'')])"

text \<open>A world with another agent: socket variable, dial and add answers.\<close>

definition with_agent ::
  "world \<Rightarrow> (string \<Rightarrow> string) \<Rightarrow> (string \<Rightarrow> string \<Rightarrow> error + agentConn)
     \<Rightarrow> (agentConn \<Rightarrow> AddedKey \<Rightarrow> error option) \<Rightarrow> world" where
  "with_agent w g d a = w\<lparr>Getenv := g, Dial := d, AgentAdd := a\<rparr>"

subsection \<open>What the spec documents\<close>

text \<open>
  The five conflicts of section 4.7 of the spec, in its order of precedence, each with
  the error the source returns for it; the first conflict that holds.
\<close>

definition documented_conflicts :: "((locals \<Rightarrow> bool) \<times> error) list" where
  "documented_conflicts =
     [(\<lambda>l. noPassword l \<and> \<not> insecure l, RequiredInsecureFlag ''no-password''),
      (\<lambda>l. noPassword l \<and> passwordFile l \<noteq> [],
         IncompatibleFlagWithFlag ''no-password'' ''password-file''),
      (\<lambda>l. token l \<noteq> [] \<and> provisionerPasswordFile l \<noteq> [],
         IncompatibleFlagWithFlag ''token'' ''provisioner-password-file''),
      (\<lambda>l. isHost l \<and> isAddUser l, IncompatibleFlagWithFlag ''host'' ''add-user''),
      (\<lambda>l. isAddUser l \<and> length (principals l) > 1,
         ErrorsNew ''flag '--add-user' is incompatible with more than one principal'')]"

definition first_conflict :: "locals \<Rightarrow> error option" where
  "first_conflict l = map_option snd (find (\<lambda>(p, err). p l) documented_conflicts)"

text \<open>The context after line 230.\<close>

definition password_file_set :: "context \<Rightarrow> context" where
  "password_file_set ctx = ctx\<lparr>flag_password_file := flag_provisioner_password_file ctx\<rparr>"

text \<open>The principals of section 4.1 of the spec, from the command line.\<close>

definition resolved_principals :: "world \<Rightarrow> context \<Rightarrow> string list" where
  "resolved_principals w ctx =
     (if flag_principal ctx \<noteq> [] then flag_principal ctx
      else if flag_host ctx then [Args_Get (args ctx) 0]
      else [SanitizeSSHUserPrincipal w (Args_Get (args ctx) 0)])"

text \<open>
  The files of the spec's layout (section 6), in the order they are written: \<open>B\<close> is
  the key file argument, \<open>B'\<close> is \<open>B\<close> without its suffix \<open>.pub\<close> in sign mode.
\<close>

datatype artifact = PrivateKeyFile string | PublicFile string

fun written_artifact :: "event \<Rightarrow> artifact option" where
  "written_artifact (EvSerialize priv opts) =
     (case serialize_target opts of None \<Rightarrow> None | Some (p, m) \<Rightarrow> Some (PrivateKeyFile p))"
| "written_artifact (EvWriteFile p d m) = Some (PublicFile p)"
| "written_artifact ev = None"

fun written_artifacts :: "event list \<Rightarrow> artifact list" where
  "written_artifacts [] = []"
| "written_artifacts (ev # evs) =
     (case written_artifact ev of
        None \<Rightarrow> written_artifacts evs
      | Some a \<Rightarrow> a # written_artifacts evs)"

definition baseName_ctx :: "context \<Rightarrow> string" where
  "baseName_ctx ctx =
     (let B = Args_Get (args ctx) 1
      in if flag_sign ctx \<and> HasSuffix B ''.pub'' then take (length B - 4) B else B)"

definition artifact_layout :: "context \<Rightarrow> artifact list" where
  "artifact_layout ctx =
     (let B = Args_Get (args ctx) 1;
          B' = (if flag_sign ctx \<and> HasSuffix B ''.pub'' then take (length B - 4) B else B)
      in (if flag_sign ctx then [] else [PrivateKeyFile B, PublicFile (B @ ''.pub'')]) @
         [PublicFile (B' @ ''-cert.pub'')] @
         (if flag_add_user ctx
          then [PrivateKeyFile (B' @ ''-provisioner''), PublicFile (B' @ ''-provisioner.pub''),
                PublicFile (B' @ ''-provisioner-cert.pub'')]
          else []))"

text \<open>
  The password of the main private key (section 4.5 of the spec): none when both
  no-password and insecure are set, else the password file when one is given, else a
  prompt.
\<close>

definition password_policy :: "bool \<Rightarrow> bool \<Rightarrow> string \<Rightarrow> password_source option" where
  "password_policy no_password insecure_ack password_file =
     (if no_password \<and> insecure_ack then None
      else if password_file \<noteq> [] then Some (FromPasswordFile password_file)
      else Some (FromPrompt ''Please enter the password to encrypt the private key''))"

subsection \<open>The authorized-key line and its reading\<close>

text \<open>
  Modelled from the spec: \<open>ssh.MarshalAuthorizedKey\<close> and \<open>ssh.ParseAuthorizedKey\<close>
  belong to golang.org/x/crypto/ssh and are not in command/ssh/certificate.go. The spec's
  authorized-key text form is one line: the key type, the key blob, then the comment.
  The line is written as key type, blank, base64 of the wire bytes, newline. It is read
  as the authorized_keys format of sshd(8) is, one line at a time: the line ends at the
  first line feed and is cut at the first carriage return; white space around it is
  dropped; an empty line, a line starting with \<open>#\<close> and a line without a blank are
  skipped; otherwise what follows the first field is the base64 text up to the next
  blank, and the rest of the line, without the white space around it, is the comment.
  The base64 coding is a parameter (\<open>enc\<close>, \<open>dec\<close>), and the key read is given by
  its wire bytes. A line that reads as options before the key type is not modelled: it
  gives \<open>None\<close>.
\<close>

definition CR :: char where
  "CR = CHR 0x0D"

text \<open>
  White space, as \<open>bytes.TrimSpace\<close> of Go drops it at the two ends: the six ASCII
  characters, and the Unicode spaces U+0085, U+00A0, U+1680, U+2000 to U+200A, U+2028,
  U+2029, U+202F, U+205F and U+3000, here as their UTF-8 bytes.
\<close>

definition space_seqs :: "string list" where
  "space_seqs =
     [[CHR 0x09], [CHR 0x0A], [CHR 0x0B], [CHR 0x0C], [CHR 0x0D], [CHR 0x20],
      [CHR 0xC2, CHR 0x85], [CHR 0xC2, CHR 0xA0],
      [CHR 0xE1, CHR 0x9A, CHR 0x80],
      [CHR 0xE2, CHR 0x80, CHR 0x80], [CHR 0xE2, CHR 0x80, CHR 0x81],
      [CHR 0xE2, CHR 0x80, CHR 0x82], [CHR 0xE2, CHR 0x80, CHR 0x83],
      [CHR 0xE2, CHR 0x80, CHR 0x84], [CHR 0xE2, CHR 0x80, CHR 0x85],
      [CHR 0xE2, CHR 0x80, CHR 0x86], [CHR 0xE2, CHR 0x80, CHR 0x87],
      [CHR 0xE2, CHR 0x80, CHR 0x88], [CHR 0xE2, CHR 0x80, CHR 0x89],
      [CHR 0xE2, CHR 0x80, CHR 0x8A],
      [CHR 0xE2, CHR 0x80, CHR 0xA8], [CHR 0xE2, CHR 0x80, CHR 0xA9],
      [CHR 0xE2, CHR 0x80, CHR 0xAF],
      [CHR 0xE2, CHR 0x81, CHR 0x9F],
      [CHR 0xE3, CHR 0x80, CHR 0x80]]"

definition starts_with_space :: "bytes \<Rightarrow> bool" where
  "starts_with_space s = (\<exists>q\<in>set space_seqs. prefix q s)"

definition ends_with_space :: "bytes \<Rightarrow> bool" where
  "ends_with_space s = (\<exists>q\<in>set space_seqs. suffix q s)"

definition space_prefix_len :: "bytes \<Rightarrow> nat" where
  "space_prefix_len s =
     (case find (\<lambda>q. prefix q s) space_seqs of None \<Rightarrow> 0 | Some q \<Rightarrow> length q)"

definition space_suffix_len :: "bytes \<Rightarrow> nat" where
  "space_suffix_len s =
     (case find (\<lambda>q. suffix q s) space_seqs of None \<Rightarrow> 0 | Some q \<Rightarrow> length q)"

text \<open>The loops of the trimming, with the length of the text as the bound of their steps.\<close>

primrec trim_left_n :: "nat \<Rightarrow> bytes \<Rightarrow> bytes" where
  "trim_left_n 0 s = s"
| "trim_left_n (Suc n) s =
     (if space_prefix_len s = 0 then s else trim_left_n n (drop (space_prefix_len s) s))"

primrec trim_right_n :: "nat \<Rightarrow> bytes \<Rightarrow> bytes" where
  "trim_right_n 0 s = s"
| "trim_right_n (Suc n) s =
     (if space_suffix_len s = 0 then s
      else trim_right_n n (take (length s - space_suffix_len s) s))"

definition TrimSpace :: "bytes \<Rightarrow> bytes" where
  "TrimSpace s =
     (let t = trim_left_n (length s) s in trim_right_n (length t) t)"

text \<open>The blanks of \<open>bytes.IndexAny(in, " \\t")\<close>.\<close>

definition is_blank :: "char \<Rightarrow> bool" where
  "is_blank c = (c = CHR 0x20 \<or> c = CHR 0x09)"

definition ssh_MarshalAuthorizedKey :: "(bytes \<Rightarrow> string) \<Rightarrow> sshPublicKey \<Rightarrow> bytes" where
  "ssh_MarshalAuthorizedKey enc key = keyType key @ '' '' @ enc (Marshal key) @ [LF]"

fun lines_of :: "bytes \<Rightarrow> bytes list" where
  "lines_of [] = [[]]"
| "lines_of (c # cs) =
     (if c = LF then [] # lines_of cs
      else (case lines_of cs of [] \<Rightarrow> [[c]] | l # ls \<Rightarrow> (c # l) # ls))"

definition parseAuthorizedKey ::
  "(string \<Rightarrow> bytes option) \<Rightarrow> bytes \<Rightarrow> (bytes \<times> string) option" where
  "parseAuthorizedKey dec inp =
     (let body = TrimSpace inp;
          base64Key = takeWhile (\<lambda>c. \<not> is_blank c) body
      in case dec base64Key of
           None \<Rightarrow> None
         | Some key \<Rightarrow> Some (key, TrimSpace (dropWhile (\<lambda>c. \<not> is_blank c) body)))"

fun parse_lines :: "(string \<Rightarrow> bytes option) \<Rightarrow> bytes list \<Rightarrow> (bytes \<times> string) option" where
  "parse_lines dec [] = None"
| "parse_lines dec (l # ls) =
     (let line = TrimSpace (takeWhile (\<lambda>c. c \<noteq> CR) l)
      in if line = [] \<or> hd line = CHR ''#'' then parse_lines dec ls
         else if \<not> (\<exists>c\<in>set line. is_blank c) then parse_lines dec ls
         else parseAuthorizedKey dec (dropWhile (\<lambda>c. \<not> is_blank c) line))"

definition ssh_ParseAuthorizedKey ::
  "(string \<Rightarrow> bytes option) \<Rightarrow> bytes \<Rightarrow> (bytes \<times> string) option" where
  "ssh_ParseAuthorizedKey dec inp = parse_lines dec (lines_of inp)"

text \<open>
  An ASCII character other than white space, and a word of such characters: the key
  type and the base64 text of a key are such words. A comment that the reading gives
  back: no line feed and no carriage return in it, no white space at its two ends.
\<close>

definition plain :: "char \<Rightarrow> bool" where
  "plain c =
     ((of_char c :: nat) < 128 \<and> c \<noteq> CHR 0x09 \<and> c \<noteq> CHR 0x0A \<and> c \<noteq> CHR 0x0B \<and>
      c \<noteq> CHR 0x0C \<and> c \<noteq> CHR 0x0D \<and> c \<noteq> CHR 0x20)"

definition plain_word :: "string \<Rightarrow> bool" where
  "plain_word s = (s \<noteq> [] \<and> (\<forall>c\<in>set s. plain c))"

definition trimmed_comment :: "string \<Rightarrow> bool" where
  "trimmed_comment s =
     (LF \<notin> set s \<and> CR \<notin> set s \<and> \<not> starts_with_space s \<and> \<not> ends_with_space s)"

subsection \<open>Examples\<close>

text \<open>
  Modelled from the spec: \<open>provisioner.SanitizeSSHUserPrincipal\<close> is not in
  command/ssh/certificate.go. The spec has it strip a trailing \<open>@domain\<close> suffix from
  the subject; the description of the command says the same: if the key id has the format
  \<open>abc@def\<close> then the principal will be \<open>abc\<close>. It is the sanitizer of the example
  world only: the theorems hold for every sanitizer.
\<close>

definition strip_domain :: "string \<Rightarrow> string" where
  "strip_domain s = (case LastIndex s (CHR ''@'') of Some i \<Rightarrow> take i s | None \<Rightarrow> s)"

text \<open>
  A world where every collaborator succeeds and no agent listens. The wire bytes of its
  keys are printable and stand for their own base64 text.
\<close>

definition example_world :: world where
  "example_world =
     \<lparr> ParseTimeDuration = (\<lambda>ctx. Inr (TimeDuration 0, TimeDuration 0)),
       SanitizeSSHUserPrincipal = strip_domain,
       NewCertificateFlow = (\<lambda>ctx. Inr (CertificateFlow 0)),
       GenerateSSHToken = (\<lambda>flow ctx subj ct ps va vb. Inr ''ott''),
       GetClient = (\<lambda>flow ctx subj tok. Inr (CaClient 0)),
       ReadFile = (\<lambda>p. Inr (''ecdsa-sha2-nistp256 given'' @ [LF])),
       ParseAuthorizedKey = (\<lambda>b. Inr (SSHPublicKey ''ecdsa-sha2-nistp256'' ''given'')),
       GenerateDefaultKeyPair = (\<lambda>n. Inr (PublicKey n, PrivateKey n)),
       NewPublicKey = (\<lambda>pub. Inr (SSHPublicKey ''ecdsa-sha2-nistp256''
                                  (if pub = PublicKey 0 then ''key0'' else ''key1''))),
       SignSSH = (\<lambda>c req. Inr \<lparr> Certificate = SSHPublicKey ''cert-v01'' ''crt'',
                                 AddUserCertificate = SSHPublicKey ''cert-v01'' ''aucrt'' \<rparr>),
       Serialize = (\<lambda>priv opts. None),
       WriteFile = (\<lambda>p d m. None),
       MarshalAuthorizedKey = ssh_MarshalAuthorizedKey (\<lambda>b. b),
       Getenv = (\<lambda>n. []),
       Dial = (\<lambda>n a. Inl (External ''dial unix: missing address'')),
       AgentAdd = (\<lambda>c k. None) \<rparr>"

text \<open>The same world with an agent that listens, and with a disk that refuses one file.\<close>

definition agent_world :: world where
  "agent_world =
     example_world\<lparr>Getenv := (\<lambda>n. ''/tmp/agent.sock''), Dial := (\<lambda>n a. Inr (AgentConn 0))\<rparr>"

text \<open>An agent that listens and refuses a key without a private key.\<close>

definition picky_agent_world :: world where
  "picky_agent_world =
     agent_world\<lparr>AgentAdd := (\<lambda>c k. if AddedKey_PrivateKey k = None
                                     then Some (External ''agent: unsupported key type'')
                                     else None)\<rparr>"

definition full_disk_world :: world where
  "full_disk_world =
     example_world\<lparr>WriteFile := (\<lambda>p d m. if p = ''id_ecdsa-cert.pub''
                                          then Some (External ''no space left on device'')
                                          else None)\<rparr>"

text \<open>\<open>step ca ssh-certificate mariano@work id_ecdsa\<close>, and the same with flags.\<close>

definition example_ctx :: "context" where
  "example_ctx =
     \<lparr> args = [''mariano@work'', ''id_ecdsa''],
       flag_token = [], flag_host = False, flag_sign = False, flag_add_user = False,
       flag_principal = [], flag_password_file = [], flag_provisioner_password_file = [],
       flag_no_password = False, flag_insecure = False, flag_others = [] \<rparr>"

definition init_state :: state where
  "init_state = \<lparr> fs = Map.empty, trace = [], keypairs = 0 \<rparr>"

definition conflicting_ctx :: "context" where
  "conflicting_ctx =
     example_ctx\<lparr> flag_no_password := True, flag_host := True, flag_add_user := True,
                  flag_principal := [''max'', ''mariano''] \<rparr>"

definition host_ctx :: "context" where
  "host_ctx = example_ctx\<lparr>flag_host := True\<rparr>"

definition sign_ctx :: "context" where
  "sign_ctx = example_ctx\<lparr>args := [''mariano@work'', ''id_ecdsa.pub''], flag_sign := True\<rparr>"

definition sign_add_user_ctx :: "context" where
  "sign_add_user_ctx = sign_ctx\<lparr>flag_add_user := True\<rparr>"

definition add_user_ctx :: "context" where
  "add_user_ctx =
     example_ctx\<lparr>flag_add_user := True, flag_password_file := ''pass.txt'',
                 flag_provisioner_password_file := ''prov.txt''\<rparr>"

definition user_request :: SignSSHRequest where
  "user_request =
     \<lparr> PublicKey_field = ''key0'', OTT = ''ott'', Principals = [''mariano''],
       CertType = SSHUserCert, ValidAfter = TimeDuration 0, ValidBefore = TimeDuration 0,
       AddUserPublicKey = [] \<rparr>"

definition host_request :: SignSSHRequest where
  "host_request =
     \<lparr> PublicKey_field = ''key0'', OTT = ''ott'', Principals = [''mariano@work''],
       CertType = SSHHostCert, ValidAfter = TimeDuration 0, ValidBefore = TimeDuration 0,
       AddUserPublicKey = [] \<rparr>"

text \<open>A key of the example world.\<close>

definition example_key :: sshPublicKey where
  "example_key = SSHPublicKey ''ecdsa-sha2-nistp256'' ''key0''"

section \<open>Lemmas\<close>

lemma perform_ok:
  "is_write ev \<Longrightarrow> write_failure w ev = None \<Longrightarrow>
   perform w ev s = (None, s\<lparr>fs := apply_write (fs s) ev, trace := trace s @ [ev]\<rparr>)"
  by (cases ev) (auto simp: pemutil_Serialize_def utils_WriteFile_def emit_def Let_def
                      split: option.splits)

lemma perform_failed:
  "write_failure w ev = Some err \<Longrightarrow>
   perform w ev s = (Some err, s\<lparr>trace := trace s @ [ev]\<rparr>)"
  by (cases ev) (auto simp: pemutil_Serialize_def utils_WriteFile_def emit_def Let_def)

lemma run_writes_ok:
  "list_all is_write evs \<Longrightarrow> \<forall>ev\<in>set evs. write_failure w ev = None \<Longrightarrow>
   run_writes w evs s = (None, s\<lparr>fs := apply_writes evs (fs s), trace := trace s @ evs\<rparr>)"
proof (induction evs arbitrary: s)
  case Nil
  then show ?case by (simp add: apply_writes_def)
next
  case (Cons ev evs)
  then show ?case by (simp add: perform_ok apply_writes_def)
qed

lemma run_writes_failed:
  "list_all is_write pre \<Longrightarrow> \<forall>e\<in>set pre. write_failure w e = None \<Longrightarrow>
   write_failure w ev = Some err \<Longrightarrow>
   run_writes w (pre @ ev # post) s =
     (Some err, s\<lparr>fs := apply_writes pre (fs s), trace := trace s @ pre @ [ev]\<rparr>)"
proof (induction pre arbitrary: s)
  case Nil
  then show ?case by (simp add: apply_writes_def perform_failed)
next
  case (Cons e pre)
  then show ?case by (simp add: perform_ok apply_writes_def)
qed

lemma write_key_files_run:
  "write_key_files w l sshPub priv s =
   run_writes w (if isSign l then []
      else [EvSerialize priv (private_key_options l),
            EvWriteFile (keyFile l @ ''.pub'') (marshalPublicKey w sshPub (subject l)) mode_0644]) s"
  by (simp add: write_key_files_def pubFile_of_def split: prod.splits option.splits)

lemma write_certificate_run:
  "write_certificate w l resp s =
   run_writes w [EvWriteFile (crtFile_of l) (marshalPublicKey w (Certificate resp) (subject l)) mode_0644] s"
  by (simp add: write_certificate_def split: prod.splits option.splits)

lemma write_add_user_files_run:
  "(au = None) = (\<not> isAddUser l) \<Longrightarrow>
   write_add_user_files w l resp au s =
   run_writes w (case au of
        None \<Rightarrow> []
      | Some (sshAuPub, auPriv) \<Rightarrow>
          [EvSerialize (Some auPriv) [ToFile (baseName_of l @ ''-provisioner'') mode_0600],
           EvWriteFile (baseName_of l @ ''-provisioner.pub'')
             (marshalPublicKey w sshAuPub (SanitizeSSHUserPrincipal w (subject l) @ ''-provisioner''))
             mode_0644,
           EvWriteFile (baseName_of l @ ''-provisioner-cert.pub'')
             (marshalPublicKey w (AddUserCertificate resp)
                (SanitizeSSHUserPrincipal w (subject l) @ ''-provisioner''))
             mode_0644]) s"
  by (cases au) (auto simp: write_add_user_files_def Let_def split: prod.splits option.splits)

lemma run_writes_append:
  "run_writes w (xs @ ys) s =
     (case run_writes w xs s of
        (Some err, s1) \<Rightarrow> (Some err, s1)
      | (None, s1) \<Rightarrow> run_writes w ys s1)"
  by (induction xs arbitrary: s) (auto split: prod.splits option.splits)

lemma write_files_run:
  "(au = None) = (\<not> isAddUser l) \<Longrightarrow>
   write_files w l sshPub priv au resp s = run_writes w (planned_writes w l sshPub priv au resp) s"
  unfolding write_files_def planned_writes_def run_writes_append
  by (simp only: write_key_files_run write_certificate_run write_add_user_files_run)

lemma get_token_and_client_shape:
  assumes "get_token_and_client w ctx l s = (r, s')"
  shows "fs s' = fs s \<and> keypairs s' = keypairs s \<and>
         (\<exists>evs. trace s' = trace s @ EvNewCertificateFlow ctx # evs \<and> list_all is_prepare evs)"
  using assms
  by (auto simp: get_token_and_client_def emit_def Let_def split: sum.splits prod.splits if_splits)

lemma get_key_shape:
  assumes "get_key w l s = (r, s')"
  shows "fs s' = fs s \<and> (\<exists>evs. trace s' = trace s @ evs \<and> list_all is_prepare evs) \<and>
         (\<forall>sshPub priv. r = Inr (sshPub, priv) \<longrightarrow> (priv = None) = isSign l)"
  using assms
  by (auto simp: get_key_def emit_def Let_def split: sum.splits prod.splits if_splits)

lemma get_add_user_key_shape:
  assumes "get_add_user_key w l s = (r, s')"
  shows "fs s' = fs s \<and> (\<exists>evs. trace s' = trace s @ evs \<and> list_all is_prepare evs) \<and>
         (\<forall>au. r = Inr au \<longrightarrow> (au = None) = (\<not> isAddUser l))"
  using assms
  by (auto simp: get_add_user_key_def emit_def Let_def split: sum.splits prod.splits if_splits)

lemma run_writes_shape:
  assumes "list_all is_write evs" and "run_writes w evs s = (r, s')"
  shows "(r = None \<and> (\<forall>ev\<in>set evs. write_failure w ev = None) \<and>
          s' = s\<lparr>fs := apply_writes evs (fs s), trace := trace s @ evs\<rparr>) \<or>
         (\<exists>pre ev post err. evs = pre @ ev # post \<and> (\<forall>e\<in>set pre. write_failure w e = None) \<and>
             write_failure w ev = Some err \<and> r = Some err \<and>
             s' = s\<lparr>fs := apply_writes pre (fs s), trace := trace s @ pre @ [ev]\<rparr>)"
proof (cases "\<forall>ev\<in>set evs. write_failure w ev = None")
  case True
  with assms show ?thesis by (simp add: run_writes_ok)
next
  case False
  then have "\<exists>ev\<in>set evs. write_failure w ev \<noteq> None" by blast
  from split_list_first_prop[OF this]
  obtain pre ev post where split: "evs = pre @ ev # post"
    and bad: "write_failure w ev \<noteq> None"
    and good: "\<forall>e\<in>set pre. \<not> write_failure w e \<noteq> None"
    by blast
  from bad obtain err where err: "write_failure w ev = Some err" by blast
  from assms(1) split have "list_all is_write pre" by simp
  with good err have "run_writes w (pre @ ev # post) s =
     (Some err, s\<lparr>fs := apply_writes pre (fs s), trace := trace s @ pre @ [ev]\<rparr>)"
    by (intro run_writes_failed) auto
  with assms(2) split have "r = Some err"
    and "s' = s\<lparr>fs := apply_writes pre (fs s), trace := trace s @ pre @ [ev]\<rparr>"
    by simp_all
  moreover from good have "\<forall>e\<in>set pre. write_failure w e = None" by simp
  ultimately show ?thesis using split err by blast
qed

lemma planned_writes_are_writes: "list_all is_write (planned_writes w l sshPub priv au resp)"
  by (simp add: planned_writes_def split: option.splits)

lemma fst_sshAddKeyToAgent:
  "fst (sshAddKeyToAgent w subj cert priv s) = fst (sshAddKeyToAgent w subj cert priv s0)"
  by (simp add: sshAddKeyToAgent_def Let_def split: sum.splits)

lemma sshAddKeyToAgent_shape:
  assumes "sshAddKeyToAgent w subj cert priv s = (r, s')"
  shows "fs s' = fs s \<and>
         (\<exists>evs. trace s' = trace s @ EvDial ''unix'' (Getenv w ''SSH_AUTH_SOCK'') # evs \<and>
                list_all is_report evs)"
  using assms
  by (auto simp: sshAddKeyToAgent_def emit_def Let_def split: sum.splits)

lemma print_keys_shape:
  "fs (print_keys l s) = fs s \<and>
   (\<exists>evs. trace (print_keys l s) = trace s @ evs \<and> list_all is_report evs)"
  by (simp add: print_keys_def emit_def Let_def)

lemma print_add_user_shape:
  "fs (print_add_user l s) = fs s \<and>
   (\<exists>evs. trace (print_add_user l s) = trace s @ evs \<and> list_all is_report evs)"
  by (simp add: print_add_user_def emit_def Let_def)

lemma report_and_register_exact:
  "report_and_register w l resp priv s =
     (None, s\<lparr>trace := trace s @ keys_printed l @ agent_events w l resp priv @
                             add_user_printed l\<rparr>)"
  by (simp add: report_and_register_def print_keys_def print_add_user_def sshAddKeyToAgent_def
        emit_def Let_def keys_printed_def add_user_printed_def agent_events_def agent_key_def
        errors_Wrap_def
      split: sum.splits option.splits)

lemma agent_report_in_agent_events: "agent_report w l resp priv \<in> set (agent_events w l resp priv)"
  by (simp add: agent_report_def agent_events_def sshAddKeyToAgent_def Let_def agent_key_def
        errors_Wrap_def
      split: sum.splits option.splits)

lemma report_events_are_reports:
  "list_all is_report (keys_printed l @ agent_events w l resp priv @ add_user_printed l)"
  by (simp add: keys_printed_def add_user_printed_def agent_events_def
      split: sum.splits option.splits)

lemma report_and_register_shape:
  assumes "report_and_register w l resp priv s = (r, s')"
  shows "r = None \<and> fs s' = fs s \<and>
         (\<exists>evs. trace s' = trace s @ evs \<and> list_all is_report evs \<and>
                EvDial ''unix'' (Getenv w ''SSH_AUTH_SOCK'') \<in> set evs \<and>
                agent_report w l resp priv \<in> set evs \<and>
                evs = keys_printed l @ agent_events w l resp priv @ add_user_printed l)"
proof -
  let ?evs = "keys_printed l @ agent_events w l resp priv @ add_user_printed l"
  from assms have r: "r = None" and s': "s' = s\<lparr>trace := trace s @ ?evs\<rparr>"
    by (simp_all add: report_and_register_exact)
  have "EvDial ''unix'' (Getenv w ''SSH_AUTH_SOCK'') \<in> set ?evs"
    by (simp add: agent_events_def)
  moreover have "agent_report w l resp priv \<in> set ?evs"
    using agent_report_in_agent_events[of w l resp priv] by simp
  moreover note report_events_are_reports[of l w resp priv]
  ultimately show ?thesis using r s' by simp
qed

lemma write_and_register_cases:
  assumes run: "write_and_register w l sshPub priv au resp s = (r, s')"
      and au: "(au = None) = (\<not> isAddUser l)"
  obtains
    (write_failed) pre ev post err where
      "planned_writes w l sshPub priv au resp = pre @ ev # post"
      "\<forall>e\<in>set pre. write_failure w e = None"
      "write_failure w ev = Some err"
      "r = Some err"
      "fs s' = apply_writes pre (fs s)"
      "trace s' = trace s @ pre @ [ev]"
  | (completed) rep where
      "r = None"
      "\<forall>e\<in>set (planned_writes w l sshPub priv au resp). write_failure w e = None"
      "fs s' = apply_writes (planned_writes w l sshPub priv au resp) (fs s)"
      "trace s' = trace s @ planned_writes w l sshPub priv au resp @ rep"
      "list_all is_report rep"
      "EvDial ''unix'' (Getenv w ''SSH_AUTH_SOCK'') \<in> set rep"
      "agent_report w l resp priv \<in> set rep"
      "rep = keys_printed l @ agent_events w l resp priv @ add_user_printed l"
proof -
  let ?plan = "planned_writes w l sshPub priv au resp"
  obtain rw sw where wf: "write_files w l sshPub priv au resp s = (rw, sw)"
    by (cases "write_files w l sshPub priv au resp s")
  then have rw: "run_writes w ?plan s = (rw, sw)"
    using au by (simp add: write_files_run)
  from run_writes_shape[OF planned_writes_are_writes rw]
  consider
    (ok) "rw = None" "\<forall>ev\<in>set ?plan. write_failure w ev = None"
         "sw = s\<lparr>fs := apply_writes ?plan (fs s), trace := trace s @ ?plan\<rparr>"
  | (bad) pre ev post err where "?plan = pre @ ev # post"
         "\<forall>e\<in>set pre. write_failure w e = None" "write_failure w ev = Some err"
         "rw = Some err" "sw = s\<lparr>fs := apply_writes pre (fs s), trace := trace s @ pre @ [ev]\<rparr>"
    by blast
  then show thesis
  proof cases
    case ok
    with run wf have rr: "report_and_register w l resp priv sw = (r, s')"
      by (simp add: write_and_register_def)
    from report_and_register_shape[OF rr] obtain rep where
      "r = None" "fs s' = fs sw" "trace s' = trace sw @ rep" "list_all is_report rep"
      "EvDial ''unix'' (Getenv w ''SSH_AUTH_SOCK'') \<in> set rep"
      "agent_report w l resp priv \<in> set rep"
      "rep = keys_printed l @ agent_events w l resp priv @ add_user_printed l"
      by blast
    with ok show thesis by (intro completed[of rep]) simp_all
  next
    case bad
    with run wf have "r = Some err" "s' = sw"
      by (simp_all add: write_and_register_def)
    with bad show thesis by (intro write_failed[of pre ev post err]) simp_all
  qed
qed

lemma issue_cases:
  assumes run: "issue w ctx l s = (r, s')"
  obtains
    (prepare_failed) evs where
      "r \<noteq> None" "fs s' = fs s"
      "trace s' = trace s @ EvNewCertificateFlow ctx # evs"
      "list_all is_prepare evs"
  | (sign_failed) evs c tok sshPub au where
      "r \<noteq> None" "fs s' = fs s"
      "trace s' = trace s @ EvNewCertificateFlow ctx # evs @ [EvSignSSH c (sign_request w l tok sshPub au)]"
      "list_all is_prepare evs"
  | (signed) evs c tok sshPub priv au resp s4 where
      "(priv = None) = isSign l" "(au = None) = (\<not> isAddUser l)"
      "fs s4 = fs s"
      "trace s4 = trace s @ EvNewCertificateFlow ctx # evs @ [EvSignSSH c (sign_request w l tok sshPub au)]"
      "list_all is_prepare evs"
      "write_and_register w l sshPub priv au resp s4 = (r, s')"
proof -
  obtain r1 s1 where p1: "get_token_and_client w ctx l s = (r1, s1)"
    by (cases "get_token_and_client w ctx l s")
  from get_token_and_client_shape[OF p1] obtain e1 where
    e1: "fs s1 = fs s" "trace s1 = trace s @ EvNewCertificateFlow ctx # e1" "list_all is_prepare e1"
    by blast
  show thesis
  proof (cases r1)
    case (Inl err)
    with run p1 have "r = Some err" "s' = s1" by (simp_all add: issue_def)
    with e1 show thesis by (intro prepare_failed[of e1]) simp_all
  next
    case (Inr tc)
    obtain tok c where tc: "tc = (tok, c)" by (cases tc)
    obtain r2 s2 where p2: "get_key w l s1 = (r2, s2)" by (cases "get_key w l s1")
    from get_key_shape[OF p2] obtain e2 where
      e2: "fs s2 = fs s1" "trace s2 = trace s1 @ e2" "list_all is_prepare e2"
      and priv: "\<forall>sshPub priv. r2 = Inr (sshPub, priv) \<longrightarrow> (priv = None) = isSign l"
      by blast
    show thesis
    proof (cases r2)
      case (Inl err)
      with run p1 p2 Inr tc have "r = Some err" "s' = s2" by (simp_all add: issue_def)
      with e1 e2 show thesis by (intro prepare_failed[of "e1 @ e2"]) simp_all
    next
      case (Inr kp)
      note key = this
      obtain sshPub priv where kp: "kp = (sshPub, priv)" by (cases kp)
      obtain r3 s3 where p3: "get_add_user_key w l s2 = (r3, s3)"
        by (cases "get_add_user_key w l s2")
      from get_add_user_key_shape[OF p3] obtain e3 where
        e3: "fs s3 = fs s2" "trace s3 = trace s2 @ e3" "list_all is_prepare e3"
        and au: "\<forall>au. r3 = Inr au \<longrightarrow> (au = None) = (\<not> isAddUser l)"
        by blast
      show thesis
      proof (cases r3)
        case (Inl err)
        with run p1 p2 p3 \<open>r1 = Inr tc\<close> tc key kp have "r = Some err" "s' = s3"
          by (simp_all add: issue_def)
        with e1 e2 e3 show thesis by (intro prepare_failed[of "e1 @ e2 @ e3"]) simp_all
      next
        case (Inr au')
        let ?req = "sign_request w l tok sshPub au'"
        let ?s4 = "emit (EvSignSSH c ?req) s3"
        have s4: "fs ?s4 = fs s" "trace ?s4 = trace s @ EvNewCertificateFlow ctx # (e1 @ e2 @ e3) @ [EvSignSSH c ?req]"
          using e1 e2 e3 by (simp_all add: emit_def)
        have pre: "list_all is_prepare (e1 @ e2 @ e3)" using e1 e2 e3 by simp
        show thesis
        proof (cases "SignSSH w c ?req")
          case (Inl err)
          with run p1 p2 p3 \<open>r1 = Inr tc\<close> tc key kp Inr have "r = Some err" "s' = ?s4"
            by (simp_all add: issue_def Let_def)
          with s4 pre show thesis
            by (intro sign_failed[of "e1 @ e2 @ e3" c tok sshPub au']) simp_all
        next
          case (Inr resp)
          with run p1 p2 p3 \<open>r1 = Inr tc\<close> tc key kp \<open>r3 = Inr au'\<close>
          have "write_and_register w l sshPub priv au' resp ?s4 = (r, s')"
            by (simp add: issue_def Let_def)
          moreover have "(priv = None) = isSign l" using priv key kp by simp
          moreover have "(au' = None) = (\<not> isAddUser l)" using au \<open>r3 = Inr au'\<close> by simp
          ultimately show thesis using s4 pre
            by (intro signed[of priv au' ?s4 "e1 @ e2 @ e3" c tok sshPub resp]) simp_all
        qed
      qed
    qed
  qed
qed

lemma validation_first_conflict: "validation l = first_conflict l"
  by (simp add: validation_def first_conflict_def documented_conflicts_def)

lemma action_cases:
  assumes run: "sshCertificateAction w ctx s = (r, s')"
  obtains
    (rejected) "r \<noteq> None" "s' = s"
  | (accepted) va vb where
      "NumberOfArguments ctx 2 = None"
      "ParseTimeDuration w ctx = Inr (va, vb)"
      "validation (read_locals ctx va vb) = None"
      "issue w (password_file_set ctx) (read_locals ctx va vb) s = (r, s')"
proof (cases "NumberOfArguments ctx 2")
  case (Some err)
  with run have "r = Some err" "s' = s" by (simp_all add: sshCertificateAction_def)
  then show thesis by (intro rejected) simp_all
next
  case None
  note n = this
  show thesis
  proof (cases "ParseTimeDuration w ctx")
    case (Inl err)
    with run n have "r = Some err" "s' = s" by (simp_all add: sshCertificateAction_def)
    then show thesis by (intro rejected) simp_all
  next
    case (Inr v)
    obtain va vb where v: "v = (va, vb)" by (cases v)
    show thesis
    proof (cases "validation (read_locals ctx va vb)")
      case (Some err)
      with run n Inr v have "r = Some err" "s' = s"
        by (simp_all add: sshCertificateAction_def Let_def)
      then show thesis by (intro rejected) simp_all
    next
      case None
      have "provisionerPasswordFile (read_locals ctx va vb) = flag_provisioner_password_file ctx"
        by (simp add: read_locals_def)
      with run n Inr v None show thesis
        by (intro accepted[of va vb]) (simp_all add: sshCertificateAction_def Let_def password_file_set_def)
    qed
  qed
qed

lemma run_cases:
  assumes run: "sshCertificateAction w ctx s = (r, s')"
  obtains
    (rejected) "r \<noteq> None" "s' = s"
  | (prepare_failed) va vb evs where
      "ParseTimeDuration w ctx = Inr (va, vb)"
      "validation (read_locals ctx va vb) = None"
      "r \<noteq> None" "fs s' = fs s"
      "trace s' = trace s @ EvNewCertificateFlow (password_file_set ctx) # evs"
      "list_all is_prepare evs"
  | (sign_failed) va vb evs c tok sshPub au where
      "ParseTimeDuration w ctx = Inr (va, vb)"
      "validation (read_locals ctx va vb) = None"
      "r \<noteq> None" "fs s' = fs s"
      "trace s' = trace s @ EvNewCertificateFlow (password_file_set ctx) # evs @
                  [EvSignSSH c (sign_request w (read_locals ctx va vb) tok sshPub au)]"
      "list_all is_prepare evs"
  | (write_failed) va vb evs c tok sshPub priv au resp pre ev post err where
      "ParseTimeDuration w ctx = Inr (va, vb)"
      "validation (read_locals ctx va vb) = None"
      "(priv = None) = flag_sign ctx" "(au = None) = (\<not> flag_add_user ctx)"
      "planned_writes w (read_locals ctx va vb) sshPub priv au resp = pre @ ev # post"
      "\<forall>e\<in>set pre. write_failure w e = None"
      "write_failure w ev = Some err"
      "r = Some err"
      "fs s' = apply_writes pre (fs s)"
      "trace s' = trace s @ EvNewCertificateFlow (password_file_set ctx) # evs @
                  [EvSignSSH c (sign_request w (read_locals ctx va vb) tok sshPub au)] @
                  pre @ [ev]"
      "list_all is_prepare evs"
  | (completed) va vb evs c tok sshPub priv au resp rep where
      "ParseTimeDuration w ctx = Inr (va, vb)"
      "validation (read_locals ctx va vb) = None"
      "(priv = None) = flag_sign ctx" "(au = None) = (\<not> flag_add_user ctx)"
      "r = None"
      "\<forall>e\<in>set (planned_writes w (read_locals ctx va vb) sshPub priv au resp).
          write_failure w e = None"
      "fs s' = apply_writes (planned_writes w (read_locals ctx va vb) sshPub priv au resp) (fs s)"
      "trace s' = trace s @ EvNewCertificateFlow (password_file_set ctx) # evs @
                  [EvSignSSH c (sign_request w (read_locals ctx va vb) tok sshPub au)] @
                  planned_writes w (read_locals ctx va vb) sshPub priv au resp @ rep"
      "list_all is_prepare evs"
      "list_all is_report rep"
      "EvDial ''unix'' (Getenv w ''SSH_AUTH_SOCK'') \<in> set rep"
      "agent_report w (read_locals ctx va vb) resp priv \<in> set rep"
      "rep = keys_printed (read_locals ctx va vb) @
             agent_events w (read_locals ctx va vb) resp priv @
             add_user_printed (read_locals ctx va vb)"
  using run
proof (cases rule: action_cases)
  case rejected
  then show ?thesis by (rule that(1))
next
  case (accepted va vb)
  let ?l = "read_locals ctx va vb"
  have fl: "isSign ?l = flag_sign ctx" "isAddUser ?l = flag_add_user ctx"
    by (simp_all add: read_locals_def)
  from accepted(4) show ?thesis
  proof (cases rule: issue_cases)
    case (prepare_failed evs)
    with accepted show ?thesis by (intro that(2)[of va vb evs]) simp_all
  next
    case (sign_failed evs c tok sshPub au)
    with accepted show ?thesis by (intro that(3)[of va vb evs c tok sshPub au]) simp_all
  next
    case (signed evs c tok sshPub priv au resp s4)
    from signed(6) signed(2) show ?thesis
    proof (cases rule: write_and_register_cases)
      case (write_failed pre ev post err)
      with accepted signed fl show ?thesis
        by (intro that(4)[of va vb priv au sshPub resp pre ev post err evs c tok]) simp_all
    next
      case (completed rep)
      with accepted signed fl show ?thesis
        by (intro that(5)[of va vb priv au sshPub resp evs c tok rep]) simp_all
    qed
  qed
qed

lemma issue_first_event:
  assumes "issue w ctx l s = (r, s')"
  shows "\<exists>evs. trace s' = trace s @ EvNewCertificateFlow ctx # evs"
  using assms
proof (cases rule: issue_cases)
  case (signed evs c tok sshPub priv au resp s4)
  from signed(6) signed(2) show ?thesis
    by (cases rule: write_and_register_cases) (simp_all add: signed)
qed auto

lemma run_first_event:
  assumes "NumberOfArguments ctx 2 = None" and "ParseTimeDuration w ctx = Inr (va, vb)"
      and "validation (read_locals ctx va vb) = None"
  shows "\<exists>evs. trace (snd (sshCertificateAction w ctx s)) =
               trace s @ EvNewCertificateFlow (password_file_set ctx) # evs"
proof -
  obtain r s' where run: "sshCertificateAction w ctx s = (r, s')"
    by (cases "sshCertificateAction w ctx s")
  have "provisionerPasswordFile (read_locals ctx va vb) = flag_provisioner_password_file ctx"
    by (simp add: read_locals_def)
  with run assms have "issue w (password_file_set ctx) (read_locals ctx va vb) s = (r, s')"
    by (simp add: sshCertificateAction_def Let_def password_file_set_def)
  from issue_first_event[OF this] run show ?thesis by simp
qed

lemma prepare_no_write_failure: "is_prepare ev \<Longrightarrow> write_failure w ev = None"
  by (cases ev) simp_all

lemma report_no_write_failure: "is_report ev \<Longrightarrow> write_failure w ev = None"
  by (cases ev) simp_all

lemma planned_split:
  assumes "planned_writes w l sshPub priv au resp = pre @ ev # post"
  shows "list_all is_write pre" and "is_write ev" and "list_all is_write post"
  using planned_writes_are_writes[of w l sshPub priv au resp] assms by simp_all

lemma written_artifacts_append:
  "written_artifacts (xs @ ys) = written_artifacts xs @ written_artifacts ys"
  by (induction xs) (auto split: option.splits)

lemma written_artifacts_prepare: "list_all is_prepare evs \<Longrightarrow> written_artifacts evs = []"
proof (induction evs)
  case (Cons ev evs)
  then show ?case by (cases ev) simp_all
qed simp

lemma written_artifacts_report: "list_all is_report evs \<Longrightarrow> written_artifacts evs = []"
proof (induction evs)
  case (Cons ev evs)
  then show ?case by (cases ev) simp_all
qed simp

lemma written_artifacts_planned:
  assumes "(priv = None) = flag_sign ctx" and "(au = None) = (\<not> flag_add_user ctx)"
  shows "written_artifacts (planned_writes w (read_locals ctx va vb) sshPub priv au resp) =
         artifact_layout ctx"
  using assms
  by (cases au)
     (auto simp: planned_writes_def artifact_layout_def read_locals_def private_key_options_def
        crtFile_of_def baseName_of_def Let_def)

lemma prepare_not_write: "is_prepare ev \<Longrightarrow> \<not> is_write ev"
  by (cases ev) simp_all

lemma report_not_write: "is_report ev \<Longrightarrow> \<not> is_write ev"
  by (cases ev) simp_all

lemma run_write_events:
  assumes run: "sshCertificateAction w ctx s = (r, s')"
      and new: "trace s' = trace s @ evs"
      and ev: "ev \<in> set evs" and wr: "is_write ev"
  shows "\<exists>va vb sshPub priv au resp.
           ParseTimeDuration w ctx = Inr (va, vb) \<and>
           validation (read_locals ctx va vb) = None \<and>
           (priv = None) = flag_sign ctx \<and> (au = None) = (\<not> flag_add_user ctx) \<and>
           ev \<in> set (planned_writes w (read_locals ctx va vb) sshPub priv au resp)"
  using run
proof (cases rule: run_cases)
  case rejected
  with new ev show ?thesis by simp
next
  case (prepare_failed va vb es)
  with new have "evs = EvNewCertificateFlow (password_file_set ctx) # es" by simp
  with ev wr prepare_failed(6) show ?thesis by (auto simp: list_all_iff dest: prepare_not_write)
next
  case (sign_failed va vb es c' tok sshPub au)
  with new have "evs = EvNewCertificateFlow (password_file_set ctx) # es @
      [EvSignSSH c' (sign_request w (read_locals ctx va vb) tok sshPub au)]" by simp
  with ev wr sign_failed(6) show ?thesis by (auto simp: list_all_iff dest: prepare_not_write)
next
  case (write_failed va vb es c' tok sshPub priv au resp pre ev' post err)
  with new have "evs = EvNewCertificateFlow (password_file_set ctx) # es @
      [EvSignSSH c' (sign_request w (read_locals ctx va vb) tok sshPub au)] @ pre @ [ev']"
    by simp
  with ev wr write_failed(11) have "ev \<in> set (pre @ ev' # post)"
    by (auto simp: list_all_iff dest: prepare_not_write)
  with write_failed(1-5) show ?thesis by metis
next
  case (completed va vb es c' tok sshPub priv au resp rep)
  with new have "evs = EvNewCertificateFlow (password_file_set ctx) # es @
      [EvSignSSH c' (sign_request w (read_locals ctx va vb) tok sshPub au)] @
      planned_writes w (read_locals ctx va vb) sshPub priv au resp @ rep"
    by simp
  with ev wr completed(9,10)
  have "ev \<in> set (planned_writes w (read_locals ctx va vb) sshPub priv au resp)"
    by (auto simp: list_all_iff dest: prepare_not_write report_not_write)
  with completed(1-4) show ?thesis by metis
qed

lemma planned_serialize:
  assumes "EvSerialize k opts \<in> set (planned_writes w (read_locals ctx va vb) sshPub priv au resp)"
      and "(priv = None) = flag_sign ctx" and "(au = None) = (\<not> flag_add_user ctx)"
  shows "(\<not> flag_sign ctx \<and> k = priv \<and> opts = private_key_options (read_locals ctx va vb)) \<or>
         (flag_add_user ctx \<and> k \<noteq> None \<and> opts = [ToFile (baseName_ctx ctx @ ''-provisioner'') mode_0600])"
  using assms
  by (cases au)
     (auto simp: planned_writes_def read_locals_def baseName_of_def baseName_ctx_def Let_def
           split: if_splits)


lemma private_key_options_password:
  "serialize_password (private_key_options (read_locals ctx va vb)) =
     password_policy (flag_no_password ctx) (flag_insecure ctx) (flag_password_file ctx)"
  by (simp add: private_key_options_def read_locals_def password_policy_def)

lemma apply_writes_append: "apply_writes (xs @ ys) f = apply_writes ys (apply_writes xs f)"
  by (simp add: apply_writes_def)

lemma apply_writes_prepare: "list_all is_prepare es \<Longrightarrow> apply_writes es f = f"
proof (induction es arbitrary: f)
  case Nil
  then show ?case by (simp add: apply_writes_def)
next
  case (Cons e es)
  then have "apply_write f e = f" by (cases e) simp_all
  with Cons show ?case by (simp add: apply_writes_def)
qed

lemma failure_position:
  assumes "xs @ [x] = pre @ ev # post" and "\<forall>e\<in>set xs. F e = None" and "F ev = Some err"
  shows "pre = xs \<and> ev = x \<and> post = []"
  using assms
proof (induction xs arbitrary: pre)
  case Nil
  then show ?case by (cases pre) simp_all
next
  case (Cons a xs)
  show ?case
  proof (cases pre)
    case Nil
    with Cons.prems(1) have "ev = a" by simp
    with Cons.prems(2,3) show ?thesis by simp
  next
    case (Cons b pre')
    with Cons.prems(1) have eq: "xs @ [x] = pre' @ ev # post" and b: "b = a" by simp_all
    from Cons.prems(2) have "\<forall>e\<in>set xs. F e = None" by simp
    from Cons.IH[OF eq this Cons.prems(3)] have "pre' = xs" "ev = x" "post = []" by simp_all
    then show ?thesis unfolding Cons b by simp
  qed
qed

lemma planned_write_file:
  assumes "EvWriteFile p d m \<in> set (planned_writes w (read_locals ctx va vb) sshPub priv au resp)"
      and "(au = None) = (\<not> flag_add_user ctx)"
  shows "m = mode_0644 \<and>
         (\<exists>key. (d = marshalPublicKey w key (Args_Get (args ctx) 0) \<and>
                 (\<not> flag_sign ctx \<and> p = Args_Get (args ctx) 1 @ ''.pub'' \<or>
                  p = baseName_ctx ctx @ ''-cert.pub'')) \<or>
                (flag_add_user ctx \<and>
                 d = marshalPublicKey w key
                       (SanitizeSSHUserPrincipal w (Args_Get (args ctx) 0) @ ''-provisioner'') \<and>
                 (p = baseName_ctx ctx @ ''-provisioner.pub'' \<or>
                  p = baseName_ctx ctx @ ''-provisioner-cert.pub'')))"
  using assms
  by (cases au)
     (auto simp: planned_writes_def read_locals_def baseName_of_def baseName_ctx_def
           crtFile_of_def Let_def split: if_splits)

lemma marshalPublicKey_comment: "\<exists>line. marshalPublicKey w key c = line @ '' '' @ c @ [LF]"
  by (simp add: marshalPublicKey_def Let_def split: option.splits)

lemma with_agent_fields:
  "ParseTimeDuration (with_agent w g d a) = ParseTimeDuration w"
  "SanitizeSSHUserPrincipal (with_agent w g d a) = SanitizeSSHUserPrincipal w"
  "NewCertificateFlow (with_agent w g d a) = NewCertificateFlow w"
  "GenerateSSHToken (with_agent w g d a) = GenerateSSHToken w"
  "GetClient (with_agent w g d a) = GetClient w"
  "ReadFile (with_agent w g d a) = ReadFile w"
  "ParseAuthorizedKey (with_agent w g d a) = ParseAuthorizedKey w"
  "GenerateDefaultKeyPair (with_agent w g d a) = GenerateDefaultKeyPair w"
  "NewPublicKey (with_agent w g d a) = NewPublicKey w"
  "SignSSH (with_agent w g d a) = SignSSH w"
  "Serialize (with_agent w g d a) = Serialize w"
  "WriteFile (with_agent w g d a) = WriteFile w"
  "MarshalAuthorizedKey (with_agent w g d a) = MarshalAuthorizedKey w"
  by (simp_all add: with_agent_def)

lemma with_agent_phases:
  "get_token_and_client (with_agent w g d a) = get_token_and_client w"
  "get_key (with_agent w g d a) = get_key w"
  "get_add_user_key (with_agent w g d a) = get_add_user_key w"
  "sign_request (with_agent w g d a) = sign_request w"
  "write_files (with_agent w g d a) = write_files w"
  unfolding fun_eq_iff get_token_and_client_def get_key_def
        get_add_user_key_def sign_request_def write_files_def write_key_files_def
        write_certificate_def write_add_user_files_def pemutil_Serialize_def
        utils_WriteFile_def marshalPublicKey_def principals_of_def with_agent_fields
  by (rule allI refl)+

lemma report_and_register_result:
  "fst (report_and_register w l resp priv s) = None \<and>
   fs (snd (report_and_register w l resp priv s)) = fs s"
  using report_and_register_shape[of w l resp priv s]
  by (cases "report_and_register w l resp priv s") simp

lemma write_and_register_agent:
  "fst (write_and_register (with_agent w g d a) l sshPub priv au resp s) =
     fst (write_and_register w l sshPub priv au resp s) \<and>
   fs (snd (write_and_register (with_agent w g d a) l sshPub priv au resp s)) =
     fs (snd (write_and_register w l sshPub priv au resp s))"
  by (simp add: write_and_register_def with_agent_phases report_and_register_result
           split: prod.splits option.splits)

lemma issue_agent:
  "fst (issue (with_agent w g d a) ctx l s) = fst (issue w ctx l s) \<and>
   fs (snd (issue (with_agent w g d a) ctx l s)) = fs (snd (issue w ctx l s))"
  by (simp add: issue_def with_agent_phases with_agent_fields write_and_register_agent Let_def
           split: prod.splits sum.splits)

lemma action_agent:
  "fst (sshCertificateAction (with_agent w g d a) ctx s) = fst (sshCertificateAction w ctx s) \<and>
   fs (snd (sshCertificateAction (with_agent w g d a) ctx s)) =
     fs (snd (sshCertificateAction w ctx s))"
  by (simp add: sshCertificateAction_def with_agent_fields issue_agent Let_def
           split: prod.splits sum.splits option.splits)

lemma agent_report_dial_failed:
  "Dial w ''unix'' (Getenv w ''SSH_AUTH_SOCK'') = Inl e \<Longrightarrow>
   agent_report w l resp priv = EvPrintAgentError (ErrorsWrap e ''error connecting with ssh-agent'')"
  by (simp add: agent_report_def sshAddKeyToAgent_def Let_def)

lemma agent_report_add_failed:
  "Dial w ''unix'' (Getenv w ''SSH_AUTH_SOCK'') = Inr conn \<Longrightarrow> \<forall>key. AgentAdd w conn key = Some e \<Longrightarrow>
   agent_report w l resp priv = EvPrintAgentError (ErrorsWrap e ''error adding key to agent'')"
  by (simp add: agent_report_def sshAddKeyToAgent_def Let_def errors_Wrap_def)

lemma prepare_not_report: "is_prepare ev \<Longrightarrow> \<not> is_report ev"
  by (cases ev) simp_all

lemma write_not_report: "is_write ev \<Longrightarrow> \<not> is_report ev"
  by (cases ev) simp_all

lemma run_report_events:
  assumes run: "sshCertificateAction w ctx s = (r, s')"
      and new: "trace s' = trace s @ evs"
      and ev: "ev \<in> set evs" and rp: "is_report ev"
  shows "r = None \<and>
         (\<exists>va vb resp priv. agent_report w (read_locals ctx va vb) resp priv \<in> set evs)"
  using run
proof (cases rule: run_cases)
  case rejected
  with new ev show ?thesis by simp
next
  case (prepare_failed va vb es)
  with new have "evs = EvNewCertificateFlow (password_file_set ctx) # es" by simp
  with ev rp prepare_failed(6) show ?thesis by (auto simp: list_all_iff dest: prepare_not_report)
next
  case (sign_failed va vb es c' tok sshPub au)
  with new have "evs = EvNewCertificateFlow (password_file_set ctx) # es @
      [EvSignSSH c' (sign_request w (read_locals ctx va vb) tok sshPub au)]" by simp
  with ev rp sign_failed(6) show ?thesis by (auto simp: list_all_iff dest: prepare_not_report)
next
  case (write_failed va vb es c' tok sshPub priv au resp pre ev' post err)
  with new have "evs = EvNewCertificateFlow (password_file_set ctx) # es @
      [EvSignSSH c' (sign_request w (read_locals ctx va vb) tok sshPub au)] @ pre @ [ev']"
    by simp
  with ev rp write_failed(11) planned_split[OF write_failed(5)] show ?thesis
    by (auto simp: list_all_iff dest: prepare_not_report write_not_report)
next
  case (completed va vb es c' tok sshPub priv au resp rep)
  with new have "evs = EvNewCertificateFlow (password_file_set ctx) # es @
      [EvSignSSH c' (sign_request w (read_locals ctx va vb) tok sshPub au)] @
      planned_writes w (read_locals ctx va vb) sshPub priv au resp @ rep"
    by simp
  with completed(5,12) show ?thesis by auto
qed

lemma LastIndex_snoc: "LastIndex (xs @ [c]) c = Some (length xs)"
  by (induction xs) simp_all

lemma marshalPublicKey_ssh:
  assumes "MarshalAuthorizedKey w = ssh_MarshalAuthorizedKey enc"
  shows "marshalPublicKey w key subj =
         keyType key @ '' '' @ enc (Marshal key) @ '' '' @ subj @ [LF]"
proof -
  have "MarshalAuthorizedKey w key = (keyType key @ '' '' @ enc (Marshal key)) @ [LF]"
    by (simp add: assms ssh_MarshalAuthorizedKey_def)
  then show ?thesis
    by (simp add: marshalPublicKey_def Let_def LastIndex_snoc del: append_assoc)
qed

lemma lines_of_nonempty: "lines_of s \<noteq> []"
  by (induction s) (auto split: list.splits)

lemma lines_of_line: "LF \<notin> set x \<Longrightarrow> lines_of (x @ LF # y) = x # lines_of y"
  by (induction x) (auto split: list.splits simp: lines_of_nonempty)

lemma space_seqs_nonempty: "q \<in> set space_seqs \<Longrightarrow> q \<noteq> []"
  by (auto simp: space_seqs_def)

lemma space_seqs_hd: "q \<in> set space_seqs \<Longrightarrow> \<not> plain (hd q)"
  by (auto simp: space_seqs_def plain_def)

lemma space_seqs_last: "q \<in> set space_seqs \<Longrightarrow> \<not> plain (last q)"
  by (auto simp: space_seqs_def plain_def)

lemma space_seqs_blank_last: "q \<in> set space_seqs \<Longrightarrow> CHR 0x20 \<notin> set (butlast q)"
  by (auto simp: space_seqs_def)

lemma find_Some_member: "find P xs = Some x \<Longrightarrow> x \<in> set xs \<and> P x"
  by (auto simp: find_Some_iff)

lemma space_prefix_len_zero: "space_prefix_len s = 0 \<longleftrightarrow> \<not> starts_with_space s"
proof (cases "find (\<lambda>q. prefix q s) space_seqs")
  case None
  then have "\<not> starts_with_space s"
    by (simp add: starts_with_space_def find_None_iff)
  with None show ?thesis by (simp add: space_prefix_len_def)
next
  case (Some q)
  from find_Some_member[OF Some] space_seqs_nonempty[of q] Some show ?thesis
    by (auto simp: space_prefix_len_def starts_with_space_def)
qed

lemma space_suffix_len_zero: "space_suffix_len s = 0 \<longleftrightarrow> \<not> ends_with_space s"
proof (cases "find (\<lambda>q. suffix q s) space_seqs")
  case None
  then have "\<not> ends_with_space s"
    by (simp add: ends_with_space_def find_None_iff)
  with None show ?thesis by (simp add: space_suffix_len_def)
next
  case (Some q)
  from find_Some_member[OF Some] space_seqs_nonempty[of q] Some show ?thesis
    by (auto simp: space_suffix_len_def ends_with_space_def)
qed

lemma space_prefix_len_blank: "space_prefix_len (CHR 0x20 # s) = 1"
  by (simp add: space_prefix_len_def space_seqs_def)

lemma suffix_single_snoc: "suffix [c] (s @ [d]) \<longleftrightarrow> c = d"
  by (simp add: suffix_to_prefix)

lemma space_suffix_len_blank: "space_suffix_len (s @ [CHR 0x20]) = 1"
  by (simp add: space_suffix_len_def space_seqs_def suffix_single_snoc)

lemma trim_left_n_none: "\<not> starts_with_space s \<Longrightarrow> trim_left_n n s = s"
  by (cases n) (simp_all add: space_prefix_len_zero)

lemma trim_right_n_none: "\<not> ends_with_space s \<Longrightarrow> trim_right_n n s = s"
  by (cases n) (simp_all add: space_suffix_len_zero)

lemma plain_hd_no_space: "s \<noteq> [] \<Longrightarrow> plain (hd s) \<Longrightarrow> \<not> starts_with_space s"
proof
  assume s: "s \<noteq> []" "plain (hd s)" and "starts_with_space s"
  then obtain q where q: "q \<in> set space_seqs" "prefix q s"
    by (auto simp: starts_with_space_def)
  with space_seqs_nonempty[of q] s(1) have "hd q = hd s"
    by (cases q; cases s) auto
  with space_seqs_hd[OF q(1)] s(2) show False by simp
qed

lemma plain_last_no_space: "s \<noteq> [] \<Longrightarrow> plain (last s) \<Longrightarrow> \<not> ends_with_space s"
proof
  assume s: "s \<noteq> []" "plain (last s)" and "ends_with_space s"
  then obtain q where q: "q \<in> set space_seqs" "suffix q s"
    by (auto simp: ends_with_space_def)
  with space_seqs_nonempty[of q] have "last q = last s"
    by (auto simp: suffix_def)
  with space_seqs_last[OF q(1)] s(2) show False by simp
qed

lemma blank_before_no_space:
  assumes "s \<noteq> []" and "\<not> ends_with_space s"
  shows "\<not> ends_with_space (x @ CHR 0x20 # s)"
proof
  assume "ends_with_space (x @ CHR 0x20 # s)"
  then obtain q where q: "q \<in> set space_seqs" "suffix q (x @ CHR 0x20 # s)"
    by (auto simp: ends_with_space_def)
  from q(2) have "suffix q s \<or> (\<exists>q'. q = q' @ CHR 0x20 # s)"
    by (auto simp: suffix_append suffix_Cons)
  then show False
  proof
    assume "suffix q s"
    with q(1) assms(2) show False by (auto simp: ends_with_space_def)
  next
    assume "\<exists>q'. q = q' @ CHR 0x20 # s"
    then obtain q' where "q = q' @ CHR 0x20 # s" ..
    with assms(1) have "CHR 0x20 \<in> set (butlast q)"
      by (simp add: butlast_append)
    with space_seqs_blank_last[OF q(1)] show False by simp
  qed
qed

lemma TrimSpace_trimmed:
  assumes "\<not> starts_with_space s" and "\<not> ends_with_space s"
  shows "TrimSpace s = s"
  using assms by (simp add: TrimSpace_def Let_def trim_left_n_none trim_right_n_none)

lemma TrimSpace_leading: "TrimSpace (CHR 0x20 # s) = TrimSpace s"
  by (simp add: TrimSpace_def Let_def space_prefix_len_blank)

lemma TrimSpace_trailing:
  assumes "\<not> starts_with_space (s @ [CHR 0x20])" and "\<not> starts_with_space s"
  shows "TrimSpace (s @ [CHR 0x20]) = TrimSpace s"
proof -
  have l1: "trim_left_n (length (s @ [CHR 0x20])) (s @ [CHR 0x20]) = s @ [CHR 0x20]"
    using assms(1) by (rule trim_left_n_none)
  have l2: "trim_left_n (length s) s = s"
    using assms(2) by (rule trim_left_n_none)
  have "trim_right_n (length (s @ [CHR 0x20])) (s @ [CHR 0x20]) = trim_right_n (length s) s"
    by (simp add: space_suffix_len_blank)
  then show ?thesis
    unfolding TrimSpace_def Let_def l1 l2 .
qed

lemma no_space_Nil: "\<not> starts_with_space []" "\<not> ends_with_space []"
  by (auto simp: starts_with_space_def ends_with_space_def dest: space_seqs_nonempty)

lemma plain_facts:
  assumes "plain c"
  shows "\<not> is_blank c" "c \<noteq> LF" "c \<noteq> CR"
  using assms by (auto simp: plain_def is_blank_def LF_def CR_def)

lemma parseAuthorizedKey_fields:
  assumes E: "plain_word e" and d: "dec e = Some k" and S: "trimmed_comment subj"
  shows "parseAuthorizedKey dec ('' '' @ e @ (if subj = [] then [] else '' '' @ subj)) = Some (k, subj)"
proof -
  let ?tail = "if subj = [] then [] else '' '' @ subj"
  from E have e: "e \<noteq> []" "\<forall>c\<in>set e. \<not> is_blank c" "plain (hd e)" "plain (last e)"
    by (auto simp: plain_word_def plain_facts)
  from S have s: "\<not> starts_with_space subj" "\<not> ends_with_space subj"
    by (simp_all add: trimmed_comment_def)
  have sp: "is_blank (CHR '' '')" by (simp add: is_blank_def)
  have no_start: "\<not> starts_with_space (e @ ?tail)"
    using e by (intro plain_hd_no_space) (simp_all add: hd_append)
  have no_end: "\<not> ends_with_space (e @ ?tail)"
  proof (cases "subj = []")
    case True
    with e show ?thesis by (simp add: plain_last_no_space)
  next
    case False
    with blank_before_no_space[OF False s(2), of e] show ?thesis by simp
  qed
  have body: "TrimSpace ('' '' @ e @ ?tail) = e @ ?tail"
  proof -
    have "TrimSpace ('' '' @ e @ ?tail) = TrimSpace (e @ ?tail)"
      using TrimSpace_leading[of "e @ ?tail"] by simp
    also have "\<dots> = e @ ?tail"
      using no_start no_end by (rule TrimSpace_trimmed)
    finally show ?thesis .
  qed
  have key: "takeWhile (\<lambda>c. \<not> is_blank c) (e @ ?tail) = e"
    using e sp by (simp add: takeWhile_append2)
  have rest: "dropWhile (\<lambda>c. \<not> is_blank c) (e @ ?tail) = ?tail"
    using e sp by (simp add: dropWhile_append2)
  have comment: "TrimSpace ?tail = subj"
  proof (cases "subj = []")
    case True
    then show ?thesis by (simp add: TrimSpace_trimmed no_space_Nil)
  next
    case False
    have "TrimSpace ('' '' @ subj) = TrimSpace subj"
      using TrimSpace_leading[of subj] by simp
    also have "\<dots> = subj" using s by (rule TrimSpace_trimmed)
    finally show ?thesis using False by simp
  qed
  show ?thesis
    unfolding parseAuthorizedKey_def Let_def body key rest comment d by simp
qed

lemmas trim_eval =
  TrimSpace_def space_prefix_len_def space_suffix_len_def space_seqs_def suffix_to_prefix
  starts_with_space_def ends_with_space_def

lemmas run_defs =
  sshCertificateAction_def NumberOfArguments_def read_locals_def Args_Get_def validation_def
  issue_def get_token_and_client_def get_key_def get_add_user_key_def sign_request_def
  sshAuPubBytes_of_def principals_of_def certType_of_def baseName_of_def pubFile_of_def
  crtFile_of_def HasSuffix_def private_key_options_def write_and_register_def write_files_def
  write_key_files_def write_certificate_def write_add_user_files_def report_and_register_def
  print_keys_def print_add_user_def sshAddKeyToAgent_def marshalPublicKey_def errors_Wrap_def
  pemutil_Serialize_def utils_WriteFile_def emit_def Let_def

lemmas example_defs =
  example_world_def example_ctx_def init_state_def host_ctx_def sign_ctx_def
  sign_add_user_ctx_def add_user_ctx_def agent_world_def full_disk_world_def
  strip_domain_def LF_def ssh_MarshalAuthorizedKey_def example_key_def user_request_def host_request_def artifact_layout_def
  baseName_ctx_def mode_0600_def mode_0644_def

section \<open>The claims\<close>

subsection \<open>C1: the validation of the flags\<close>

text \<open>
  Claim C1. There are five documented conflicts of flags (no-password without insecure;
  no-password with a password file; a token with a provisioner password file; host with
  add-user; add-user with more than one principal). Every invocation in which one of
  them holds returns an error with the state untouched: nothing was read or written, no
  collaborator was called. Once the two arguments and the validity flags are read, the
  error is the one of the first conflict that holds, in the documented order of
  precedence. When no conflict holds the validation passes and the action goes on to its
  first collaborator, the certificate flow.
\<close>

theorem validation_rejects_first_conflict_without_io:
  "length documented_conflicts = 5 \<and>
   (first_conflict (read_locals ctx va vb) \<noteq> None \<longrightarrow>
      (\<exists>err. sshCertificateAction w ctx s = (Some err, s))) \<and>
   (NumberOfArguments ctx 2 = None \<and> ParseTimeDuration w ctx = Inr (va, vb) \<longrightarrow>
      (case first_conflict (read_locals ctx va vb) of
         Some err \<Rightarrow> sshCertificateAction w ctx s = (Some err, s)
       | None \<Rightarrow>
           validation (read_locals ctx va vb) = None \<and>
           (\<exists>evs. trace (snd (sshCertificateAction w ctx s)) =
                    trace s @ EvNewCertificateFlow (password_file_set ctx) # evs)))"
proof (intro conjI impI)
  show "length documented_conflicts = 5" by (simp add: documented_conflicts_def)
next
  assume c: "first_conflict (read_locals ctx va vb) \<noteq> None"
  have same: "first_conflict (read_locals ctx va' vb') = first_conflict (read_locals ctx va vb)"
    for va' vb'
    by (simp add: first_conflict_def documented_conflicts_def read_locals_def)
  show "\<exists>err. sshCertificateAction w ctx s = (Some err, s)"
  proof (cases "NumberOfArguments ctx 2")
    case (Some err)
    then show ?thesis by (simp add: sshCertificateAction_def)
  next
    case None
    show ?thesis
    proof (cases "ParseTimeDuration w ctx")
      case (Inl err)
      with None show ?thesis by (simp add: sshCertificateAction_def)
    next
      case (Inr v)
      obtain va' vb' where v: "v = (va', vb')" by (cases v)
      from c same[of va' vb'] obtain err where "validation (read_locals ctx va' vb') = Some err"
        by (auto simp: validation_first_conflict)
      with None Inr v show ?thesis by (simp add: sshCertificateAction_def Let_def)
    qed
  qed
next
  assume a: "NumberOfArguments ctx 2 = None \<and> ParseTimeDuration w ctx = Inr (va, vb)"
  show "case first_conflict (read_locals ctx va vb) of
          Some err \<Rightarrow> sshCertificateAction w ctx s = (Some err, s)
        | None \<Rightarrow>
            validation (read_locals ctx va vb) = None \<and>
            (\<exists>evs. trace (snd (sshCertificateAction w ctx s)) =
                     trace s @ EvNewCertificateFlow (password_file_set ctx) # evs)"
  proof (cases "first_conflict (read_locals ctx va vb)")
    case (Some err)
    then have "validation (read_locals ctx va vb) = Some err"
      by (simp add: validation_first_conflict)
    with a have "sshCertificateAction w ctx s = (Some err, s)"
      by (simp add: sshCertificateAction_def Let_def)
    with Some show ?thesis by simp
  next
    case None
    then have v: "validation (read_locals ctx va vb) = None"
      by (simp add: validation_first_conflict)
    from a have "NumberOfArguments ctx 2 = None" "ParseTimeDuration w ctx = Inr (va, vb)"
      by simp_all
    from run_first_event[OF this v] None v show ?thesis by simp
  qed
qed

text \<open>
  An invocation with three conflicts at once (the first, the fourth and the fifth): the
  error is the one of the first, and the state is the initial one.
\<close>

theorem validation_rejects_first_conflict_without_io_witness:
  "NumberOfArguments conflicting_ctx 2 = None \<and>
   ParseTimeDuration example_world conflicting_ctx = Inr (TimeDuration 0, TimeDuration 0) \<and>
   sshCertificateAction example_world conflicting_ctx init_state =
     (Some (RequiredInsecureFlag ''no-password''), init_state)"
proof -
  have n: "NumberOfArguments conflicting_ctx 2 = None"
    by (simp add: NumberOfArguments_def conflicting_ctx_def example_ctx_def)
  have p: "ParseTimeDuration example_world conflicting_ctx = Inr (TimeDuration 0, TimeDuration 0)"
    by (simp add: example_world_def)
  have c: "first_conflict (read_locals conflicting_ctx (TimeDuration 0) (TimeDuration 0)) =
           Some (RequiredInsecureFlag ''no-password'')"
    by (simp add: first_conflict_def documented_conflicts_def read_locals_def
          conflicting_ctx_def example_ctx_def)
  from validation_rejects_first_conflict_without_io
         [of conflicting_ctx "TimeDuration 0" "TimeDuration 0" example_world init_state] c n p
  show ?thesis by simp
qed

subsection \<open>C2: the principals of the signing request\<close>

text \<open>
  Claim C2. Whenever the action sends a signing request, its principals are the
  principals given on the command line, unchanged and in their order, when there are
  some; with no principal given they are the subject alone for a host certificate, and
  the sanitized subject alone for a user certificate.
\<close>

theorem signing_request_principals:
  assumes run: "sshCertificateAction w ctx s = (r, s')"
      and new: "trace s' = trace s @ evs"
      and sent: "EvSignSSH c req \<in> set evs"
  shows "Principals req = resolved_principals w ctx"
proof -
  have princ: "Principals (sign_request w (read_locals ctx va vb) tok sshPub au) =
               resolved_principals w ctx" for va vb tok sshPub au
    by (simp add: sign_request_def principals_of_def read_locals_def resolved_principals_def)
  from run show ?thesis
  proof (cases rule: run_cases)
    case rejected
    with new sent show ?thesis by simp
  next
    case (prepare_failed va vb es)
    with new have "evs = EvNewCertificateFlow (password_file_set ctx) # es" by simp
    with sent prepare_failed(6) show ?thesis by (auto simp: list_all_iff)
  next
    case (sign_failed va vb es c' tok sshPub au)
    with new have "evs = EvNewCertificateFlow (password_file_set ctx) # es @
        [EvSignSSH c' (sign_request w (read_locals ctx va vb) tok sshPub au)]" by simp
    with sent sign_failed(6) show ?thesis by (auto simp: list_all_iff princ)
  next
    case (write_failed va vb es c' tok sshPub priv au resp pre ev post err)
    with new have "evs = EvNewCertificateFlow (password_file_set ctx) # es @
        [EvSignSSH c' (sign_request w (read_locals ctx va vb) tok sshPub au)] @ pre @ [ev]"
      by simp
    with sent write_failed(11) planned_split[OF write_failed(5)] show ?thesis
      by (auto simp: list_all_iff princ)
  next
    case (completed va vb es c' tok sshPub priv au resp rep)
    with new have "evs = EvNewCertificateFlow (password_file_set ctx) # es @
        [EvSignSSH c' (sign_request w (read_locals ctx va vb) tok sshPub au)] @
        planned_writes w (read_locals ctx va vb) sshPub priv au resp @ rep"
      by simp
    with sent completed(9,10) planned_writes_are_writes[of w "read_locals ctx va vb" sshPub priv au resp]
    show ?thesis
      by (auto simp: list_all_iff princ)
  qed
qed

text \<open>
  With the subject \<open>mariano@work\<close> and no principal, where sanitizing strips the
  domain: the user request has the principal \<open>mariano\<close>, the host request
  \<open>mariano@work\<close>.
\<close>

theorem signing_request_principals_witness:
  "EvSignSSH (CaClient 0) user_request \<in>
     set (trace (snd (sshCertificateAction example_world example_ctx init_state))) \<and>
   resolved_principals example_world example_ctx = [''mariano''] \<and>
   EvSignSSH (CaClient 0) host_request \<in>
     set (trace (snd (sshCertificateAction example_world host_ctx init_state))) \<and>
   resolved_principals example_world host_ctx = [''mariano@work'']"
proof -
  let ?u = "sshCertificateAction example_world example_ctx init_state"
  let ?h = "sshCertificateAction example_world host_ctx init_state"
  have u: "EvSignSSH (CaClient 0) user_request \<in> set (trace (snd ?u))" by (simp add: run_defs example_defs)
  have h: "EvSignSSH (CaClient 0) host_request \<in> set (trace (snd ?h))" by (simp add: run_defs example_defs)
  have t: "trace (snd x) = trace init_state @ trace (snd x)" for x :: "error option \<times> state"
    by (simp add: init_state_def)
  from signing_request_principals[OF surjective_pairing t u]
  have "resolved_principals example_world example_ctx = [''mariano'']"
    by (simp add: user_request_def)
  moreover
  from signing_request_principals[OF surjective_pairing t h]
  have "resolved_principals example_world host_ctx = [''mariano@work'']"
    by (simp add: host_request_def)
  ultimately show ?thesis using u h by simp
qed

subsection \<open>C3: the names of the files\<close>

text \<open>
  Claim C3, as stated, fails: in sign mode with add-user the action writes a private key
  file and a public key file, those of the second key pair.
\<close>

theorem sign_mode_add_user_writes_key_files:
  "flag_sign sign_add_user_ctx \<and>
   fst (sshCertificateAction example_world sign_add_user_ctx init_state) = None \<and>
   fs (snd (sshCertificateAction example_world sign_add_user_ctx init_state))
      ''id_ecdsa-provisioner'' = Some (PrivateKeyPEM (Some (PrivateKey 0)) None, mode_0600) \<and>
   fs (snd (sshCertificateAction example_world sign_add_user_ctx init_state))
      ''id_ecdsa-provisioner.pub'' =
        Some (Data (''ecdsa-sha2-nistp256 key0 mariano-provisioner'' @ [LF]), mode_0644)"
  by (simp add: run_defs example_defs)

text \<open>
  Claim C3, amended. The files the action writes are, in this order, a prefix of the
  layout: without sign the private key at the key file \<open>B\<close> and the public key at
  \<open>B.pub\<close>; the certificate at \<open>B'-cert.pub\<close>, where \<open>B'\<close> is \<open>B\<close>
  without its suffix \<open>.pub\<close> in sign mode and \<open>B\<close> otherwise; with add-user the
  private key, public key and certificate of the second key pair at
  \<open>B'-provisioner\<close>, \<open>B'-provisioner.pub\<close> and \<open>B'-provisioner-cert.pub\<close>.
  When the action succeeds the files written are the whole layout. So in sign mode
  neither \<open>B\<close> nor \<open>B.pub\<close> is written.
\<close>

theorem written_files_follow_layout:
  assumes run: "sshCertificateAction w ctx s = (r, s')"
      and new: "trace s' = trace s @ evs"
  shows "(\<exists>rest. artifact_layout ctx = written_artifacts evs @ rest) \<and>
         (r = None \<longrightarrow> written_artifacts evs = artifact_layout ctx)"
  using run
proof (cases rule: run_cases)
  case rejected
  with new show ?thesis by auto
next
  case (prepare_failed va vb es)
  with new have "evs = EvNewCertificateFlow (password_file_set ctx) # es" by simp
  with prepare_failed show ?thesis by (auto simp: written_artifacts_prepare)
next
  case (sign_failed va vb es c' tok sshPub au)
  with new have "evs = EvNewCertificateFlow (password_file_set ctx) # es @
      [EvSignSSH c' (sign_request w (read_locals ctx va vb) tok sshPub au)]" by simp
  with sign_failed show ?thesis by (auto simp: written_artifacts_prepare written_artifacts_append)
next
  case (write_failed va vb es c' tok sshPub priv au resp pre ev post err)
  with new have evs: "evs = EvNewCertificateFlow (password_file_set ctx) # es @
      [EvSignSSH c' (sign_request w (read_locals ctx va vb) tok sshPub au)] @ pre @ [ev]"
    by simp
  have "artifact_layout ctx = written_artifacts (pre @ ev # post)"
    using written_artifacts_planned[OF write_failed(3,4), of w va vb sshPub resp] write_failed(5)
    by simp
  also have "\<dots> = written_artifacts (pre @ [ev]) @ written_artifacts post"
    by (simp add: written_artifacts_append split: option.splits)
  finally have "artifact_layout ctx = written_artifacts evs @ written_artifacts post"
    using evs write_failed(11) by (simp add: written_artifacts_prepare written_artifacts_append)
  with write_failed(8) show ?thesis by blast
next
  case (completed va vb es c' tok sshPub priv au resp rep)
  with new have "evs = EvNewCertificateFlow (password_file_set ctx) # es @
      [EvSignSSH c' (sign_request w (read_locals ctx va vb) tok sshPub au)] @
      planned_writes w (read_locals ctx va vb) sshPub priv au resp @ rep"
    by simp
  with completed(9,10) written_artifacts_planned[OF completed(3,4), of w va vb sshPub resp]
  show ?thesis
    by (simp add: written_artifacts_prepare written_artifacts_report written_artifacts_append)
qed

theorem written_files_follow_layout_witness:
  "written_artifacts (trace (snd (sshCertificateAction example_world example_ctx init_state))) =
     [PrivateKeyFile ''id_ecdsa'', PublicFile ''id_ecdsa.pub'', PublicFile ''id_ecdsa-cert.pub''] \<and>
   written_artifacts (trace (snd (sshCertificateAction example_world sign_ctx init_state))) =
     [PublicFile ''id_ecdsa-cert.pub'']"
proof -
  let ?g = "sshCertificateAction example_world example_ctx init_state"
  let ?s = "sshCertificateAction example_world sign_ctx init_state"
  have t: "trace (snd x) = trace init_state @ trace (snd x)" for x :: "error option \<times> state"
    by (simp add: init_state_def)
  have g: "fst ?g = None" by (simp add: run_defs example_defs)
  have s: "fst ?s = None" by (simp add: run_defs example_defs)
  have lg: "artifact_layout example_ctx =
     [PrivateKeyFile ''id_ecdsa'', PublicFile ''id_ecdsa.pub'', PublicFile ''id_ecdsa-cert.pub'']"
    by (simp add: run_defs example_defs)
  have ls: "artifact_layout sign_ctx = [PublicFile ''id_ecdsa-cert.pub'']"
    by (simp add: run_defs example_defs)
  from written_files_follow_layout[OF surjective_pairing t, where w=example_world and ctx=example_ctx] g lg
  have "written_artifacts (trace (snd ?g)) =
     [PrivateKeyFile ''id_ecdsa'', PublicFile ''id_ecdsa.pub'', PublicFile ''id_ecdsa-cert.pub'']"
    by simp
  moreover
  from written_files_follow_layout[OF surjective_pairing t, where w=example_world and ctx=sign_ctx] s ls
  have "written_artifacts (trace (snd ?s)) = [PublicFile ''id_ecdsa-cert.pub'']"
    by simp
  ultimately show ?thesis by simp
qed

subsection \<open>C4: mode and password of the private keys\<close>




subsection \<open>C5: the agent in sign mode\<close>

text \<open>
  Claim C5 says that in sign mode, where no private key was generated, the action does
  not connect to the agent. The action calls \<open>sshAddKeyToAgent\<close> whatever the mode
  (line 387): in sign mode it dials the agent socket and asks the agent to add a key with
  a nil private key, although the writing and the printing of the private key are guarded
  by \<open>!isSign\<close> (lines 339 and 380).
\<close>

theorem sign_mode_still_calls_agent:
  "flag_sign sign_ctx \<and>
   fst (sshCertificateAction agent_world sign_ctx init_state) = None \<and>
   written_artifacts (trace (snd (sshCertificateAction agent_world sign_ctx init_state))) =
     [PublicFile ''id_ecdsa-cert.pub''] \<and>
   EvDial ''unix'' ''/tmp/agent.sock''
     \<in> set (trace (snd (sshCertificateAction agent_world sign_ctx init_state))) \<and>
   EvAgentAdd \<lparr> AddedKey_PrivateKey = None,
                AddedKey_Certificate = SSHPublicKey ''cert-v01'' ''crt'',
                AddedKey_Comment = ''mariano@work'' \<rparr>
     \<in> set (trace (snd (sshCertificateAction agent_world sign_ctx init_state)))"
  by (simp add: run_defs example_defs)

subsection \<open>C6: a failure of the agent is a warning\<close>

text \<open>
  Claim C6. When the action reaches the agent step (it dials the agent socket), every
  file has been written and the action returns success whatever the agent answers: with
  any other agent (socket variable, dial and add answers) the result is success too and
  the file system is the same. A failure to connect is printed as the agent warning.
  After a dial that succeeds the action makes an add call, and when the add call fails
  for the key it was given, that failure is printed as the agent warning.
\<close>

theorem agent_failure_is_only_a_warning:
  assumes run: "sshCertificateAction w ctx s = (r, s')"
      and new: "trace s' = trace s @ evs"
      and reached: "EvDial n sock \<in> set evs"
  shows "r = None \<and>
         fst (sshCertificateAction (with_agent w g d a) ctx s) = None \<and>
         fs (snd (sshCertificateAction (with_agent w g d a) ctx s)) = fs s' \<and>
         (\<forall>e. Dial w ''unix'' (Getenv w ''SSH_AUTH_SOCK'') = Inl e \<longrightarrow>
              EvPrintAgentError (ErrorsWrap e ''error connecting with ssh-agent'') \<in> set evs) \<and>
         (\<forall>conn. Dial w ''unix'' (Getenv w ''SSH_AUTH_SOCK'') = Inr conn \<longrightarrow>
              (\<exists>key. EvAgentAdd key \<in> set evs)) \<and>
         (\<forall>conn key e. Dial w ''unix'' (Getenv w ''SSH_AUTH_SOCK'') = Inr conn \<and>
                       EvAgentAdd key \<in> set evs \<and> AgentAdd w conn key = Some e \<longrightarrow>
              EvPrintAgentError (ErrorsWrap e ''error adding key to agent'') \<in> set evs)"
proof -
  have "is_report (EvDial n sock)" by simp
  from run_report_events[OF run new reached this] have r: "r = None" by blast
  from action_agent[of w g d a ctx s] run r
  have other: "fst (sshCertificateAction (with_agent w g d a) ctx s) = None"
    "fs (snd (sshCertificateAction (with_agent w g d a) ctx s)) = fs s'"
    by simp_all
  from run obtain va vb es c tok sshPub priv au resp where
    evs: "evs = (EvNewCertificateFlow (password_file_set ctx) # es @
            [EvSignSSH c (sign_request w (read_locals ctx va vb) tok sshPub au)] @
            planned_writes w (read_locals ctx va vb) sshPub priv au resp @
            keys_printed (read_locals ctx va vb)) @
          agent_events w (read_locals ctx va vb) resp priv @
          add_user_printed (read_locals ctx va vb)"
    and es: "list_all is_prepare es"
  proof (cases rule: run_cases)
    case rejected
    with r show ?thesis by simp
  next
    case (prepare_failed va vb es)
    with r show ?thesis by simp
  next
    case (sign_failed va vb es c tok sshPub au)
    with r show ?thesis by simp
  next
    case (write_failed va vb es c tok sshPub priv au resp pre ev post err)
    with r show ?thesis by simp
  next
    case (completed va vb es c tok sshPub priv au resp rep)
    with new that[of es c va vb tok sshPub au priv resp] show ?thesis by simp
  qed
  let ?l = "read_locals ctx va vb"
  let ?plan = "planned_writes w ?l sshPub priv au resp"
  have no_add: "EvAgentAdd key \<notin> set (EvNewCertificateFlow (password_file_set ctx) # es @
            [EvSignSSH c (sign_request w ?l tok sshPub au)] @ ?plan @ keys_printed ?l)"
    "EvAgentAdd key \<notin> set (add_user_printed ?l)" for key
    using es planned_writes_are_writes[of w ?l sshPub priv au resp]
    by (auto simp: list_all_iff keys_printed_def add_user_printed_def)
  have in_agent: "EvAgentAdd key \<in> set evs \<Longrightarrow> EvAgentAdd key \<in> set (agent_events w ?l resp priv)"
    for key
    using no_add[of key] unfolding evs by auto
  have sub: "set (agent_events w ?l resp priv) \<subseteq> set evs"
    unfolding evs by auto
  have dial_failed: "EvPrintAgentError (ErrorsWrap e ''error connecting with ssh-agent'') \<in> set evs"
    if "Dial w ''unix'' (Getenv w ''SSH_AUTH_SOCK'') = Inl e" for e
    using that sub by (auto simp: agent_events_def)
  have add_made: "\<exists>key. EvAgentAdd key \<in> set evs"
    if "Dial w ''unix'' (Getenv w ''SSH_AUTH_SOCK'') = Inr conn" for conn
    using that sub by (auto simp: agent_events_def)
  have add_failed: "EvPrintAgentError (ErrorsWrap e ''error adding key to agent'') \<in> set evs"
    if d: "Dial w ''unix'' (Getenv w ''SSH_AUTH_SOCK'') = Inr conn"
      and k: "EvAgentAdd key \<in> set evs" and f: "AgentAdd w conn key = Some e" for conn key e
  proof -
    from in_agent[OF k] d have "key = agent_key ?l resp priv"
      by (simp add: agent_events_def split: option.splits)
    with d f have "EvPrintAgentError (ErrorsWrap e ''error adding key to agent'')
          \<in> set (agent_events w ?l resp priv)"
      by (simp add: agent_events_def)
    with sub show ?thesis by blast
  qed
  from r other dial_failed add_made add_failed show ?thesis by blast
qed

text \<open>
  Without an agent socket the dial fails and the warning of the dial is printed; in sign
  mode, with an agent that refuses a key without a private key, the warning of the add
  call is printed. Both runs return success.
\<close>

theorem agent_failure_is_only_a_warning_witness:
  "Dial example_world ''unix'' (Getenv example_world ''SSH_AUTH_SOCK'') =
     Inl (External ''dial unix: missing address'') \<and>
   fst (sshCertificateAction example_world example_ctx init_state) = None \<and>
   EvPrintAgentError
     (ErrorsWrap (External ''dial unix: missing address'') ''error connecting with ssh-agent'')
     \<in> set (trace (snd (sshCertificateAction example_world example_ctx init_state))) \<and>
   fst (sshCertificateAction picky_agent_world sign_ctx init_state) = None \<and>
   EvPrintAgentError
     (ErrorsWrap (External ''agent: unsupported key type'') ''error adding key to agent'')
     \<in> set (trace (snd (sshCertificateAction picky_agent_world sign_ctx init_state)))"
proof -
  let ?r = "sshCertificateAction example_world example_ctx init_state"
  let ?p = "sshCertificateAction picky_agent_world sign_ctx init_state"
  let ?key = "\<lparr> AddedKey_PrivateKey = None,
                AddedKey_Certificate = SSHPublicKey ''cert-v01'' ''crt'',
                AddedKey_Comment = ''mariano@work'' \<rparr>"
  have t: "trace (snd x) = trace init_state @ trace (snd x)" for x :: "error option \<times> state"
    by (simp add: init_state_def)
  have ev: "EvDial ''unix'' [] \<in> set (trace (snd ?r))"
    by (simp add: run_defs example_defs)
  have dial: "Dial example_world ''unix'' (Getenv example_world ''SSH_AUTH_SOCK'') =
     Inl (External ''dial unix: missing address'')"
    by (simp add: example_world_def)
  have evp: "EvDial ''unix'' ''/tmp/agent.sock'' \<in> set (trace (snd ?p))"
    by (simp add: run_defs example_defs picky_agent_world_def)
  have dialp: "Dial picky_agent_world ''unix'' (Getenv picky_agent_world ''SSH_AUTH_SOCK'') =
     Inr (AgentConn 0)"
    by (simp add: picky_agent_world_def agent_world_def example_world_def)
  have addp: "EvAgentAdd ?key \<in> set (trace (snd ?p))"
    by (simp add: run_defs example_defs picky_agent_world_def)
  have failp: "AgentAdd picky_agent_world (AgentConn 0) ?key =
     Some (External ''agent: unsupported key type'')"
    by (simp add: picky_agent_world_def agent_world_def example_world_def)
  from agent_failure_is_only_a_warning[OF surjective_pairing t ev,
         of "Getenv agent_world" "Dial agent_world" "AgentAdd agent_world"] dial
  have first: "fst ?r = None \<and>
     EvPrintAgentError
       (ErrorsWrap (External ''dial unix: missing address'') ''error connecting with ssh-agent'')
       \<in> set (trace (snd ?r))"
    by simp
  from agent_failure_is_only_a_warning[OF surjective_pairing t evp,
         of "Getenv agent_world" "Dial agent_world" "AgentAdd agent_world"] dialp addp failp
  have "fst ?p = None \<and>
     EvPrintAgentError
       (ErrorsWrap (External ''agent: unsupported key type'') ''error adding key to agent'')
       \<in> set (trace (snd ?p))"
    by blast
  with first dial show ?thesis by simp
qed

subsection \<open>C7: the comments of the public files\<close>

text \<open>
  Claim C7, as stated, fails: the comment of the files of the second key pair is built
  from the sanitized subject (line 368). With the subject \<open>mariano@work\<close>, where
  sanitizing strips the domain, the comment is \<open>mariano-provisioner\<close> and not
  \<open>mariano@work-provisioner\<close>.
\<close>

theorem auxiliary_comment_uses_sanitized_subject:
  "fs (snd (sshCertificateAction example_world add_user_ctx init_state))
      ''id_ecdsa-provisioner.pub'' =
     Some (Data (''ecdsa-sha2-nistp256 key1 mariano-provisioner'' @ [LF]), mode_0644) \<and>
   marshalPublicKey example_world (SSHPublicKey ''ecdsa-sha2-nistp256'' ''key1'')
      (''mariano@work'' @ ''-provisioner'') =
     ''ecdsa-sha2-nistp256 key1 mariano@work-provisioner'' @ [LF] \<and>
   fs (snd (sshCertificateAction example_world add_user_ctx init_state))
      ''id_ecdsa-provisioner-cert.pub'' =
     Some (Data (''cert-v01 aucrt mariano-provisioner'' @ [LF]), mode_0644)"
  by (simp add: run_defs example_defs)

text \<open>
  Claim C7, amended. Every public file the action writes is the authorized-key line of a
  key or certificate, its final newline replaced by a blank, a comment and a newline. The
  comment of the main public key (at \<open>B.pub\<close>) and of the certificate (at
  \<open>B'-cert.pub\<close>) is the subject; the comment of the public key and certificate of the
  second key pair (at \<open>B'-provisioner.pub\<close> and \<open>B'-provisioner-cert.pub\<close>) is the
  sanitized subject followed by \<open>-provisioner\<close>.
\<close>

theorem public_files_comments:
  assumes run: "sshCertificateAction w ctx s = (r, s')"
      and new: "trace s' = trace s @ evs"
      and ev: "EvWriteFile p d m \<in> set evs"
  shows "\<exists>key comment.
           d = marshalPublicKey w key comment \<and>
           (\<exists>line. d = line @ '' '' @ comment @ [LF]) \<and>
           (comment = Args_Get (args ctx) 0 \<and>
              (\<not> flag_sign ctx \<and> p = Args_Get (args ctx) 1 @ ''.pub'' \<or>
               p = baseName_ctx ctx @ ''-cert.pub'') \<or>
            comment = SanitizeSSHUserPrincipal w (Args_Get (args ctx) 0) @ ''-provisioner'' \<and>
              flag_add_user ctx \<and>
              (p = baseName_ctx ctx @ ''-provisioner.pub'' \<or>
               p = baseName_ctx ctx @ ''-provisioner-cert.pub''))"
proof -
  have "is_write (EvWriteFile p d m)" by simp
  from run_write_events[OF run new ev this] obtain va vb sshPub priv au resp where
    "(au = None) = (\<not> flag_add_user ctx)"
    "EvWriteFile p d m \<in> set (planned_writes w (read_locals ctx va vb) sshPub priv au resp)"
    by blast
  from planned_write_file[OF this(2,1)] marshalPublicKey_comment show ?thesis
    by metis
qed

theorem public_files_comments_witness:
  "EvWriteFile ''id_ecdsa-provisioner.pub''
     (''ecdsa-sha2-nistp256 key1 mariano-provisioner'' @ [LF]) mode_0644
     \<in> set (trace (snd (sshCertificateAction example_world add_user_ctx init_state))) \<and>
   (\<exists>key comment.
      ''ecdsa-sha2-nistp256 key1 mariano-provisioner'' @ [LF] =
        marshalPublicKey example_world key comment \<and>
      (comment = ''mariano@work'' \<or> comment = ''mariano-provisioner''))"
proof -
  let ?r = "sshCertificateAction example_world add_user_ctx init_state"
  have t: "trace (snd ?r) = trace init_state @ trace (snd ?r)"
    by (simp add: init_state_def)
  have ev: "EvWriteFile ''id_ecdsa-provisioner.pub''
     (''ecdsa-sha2-nistp256 key1 mariano-provisioner'' @ [LF]) mode_0644 \<in> set (trace (snd ?r))"
    by (simp add: run_defs example_defs)
  have a: "Args_Get (args add_user_ctx) 0 = ''mariano@work''" by (simp add: run_defs example_defs)
  have s: "SanitizeSSHUserPrincipal example_world ''mariano@work'' @ ''-provisioner'' =
           ''mariano-provisioner''"
    by (simp add: run_defs example_defs)
  from public_files_comments[OF surjective_pairing t ev] ev show ?thesis
    unfolding a s by blast
qed

subsection \<open>C8: a failed write aborts, nothing is rolled back\<close>

text \<open>
  Claim C8. When a write of the action fails (the serialization of a private key or the
  write of a public file), the action returns the error of that write and does nothing
  after it: the failed write is its last step. The file system is then the initial one
  with the writes made before the failing one applied: the files already written stay.
\<close>

theorem write_failure_aborts_without_rollback:
  assumes run: "sshCertificateAction w ctx s = (r, s')"
      and new: "trace s' = trace s @ evs"
      and split: "evs = pre @ ev # post"
      and failed: "write_failure w ev = Some err"
  shows "r = Some err \<and> post = [] \<and> fs s' = apply_writes pre (fs s)"
  using run
proof (cases rule: run_cases)
  case rejected
  with new split show ?thesis by simp
next
  case (prepare_failed va vb es)
  with new have "evs = EvNewCertificateFlow (password_file_set ctx) # es" by simp
  with prepare_failed(6) have "\<forall>e\<in>set evs. write_failure w e = None"
    by (auto simp: list_all_iff prepare_no_write_failure)
  with split failed show ?thesis by simp
next
  case (sign_failed va vb es c tok sshPub au)
  with new have "evs = EvNewCertificateFlow (password_file_set ctx) # es @
      [EvSignSSH c (sign_request w (read_locals ctx va vb) tok sshPub au)]" by simp
  with sign_failed(6) have "\<forall>e\<in>set evs. write_failure w e = None"
    by (auto simp: list_all_iff prepare_no_write_failure)
  with split failed show ?thesis by simp
next
  case (write_failed va vb es c tok sshPub priv au resp pre0 ev0 post0 err0)
  let ?head = "EvNewCertificateFlow (password_file_set ctx) # es @
      [EvSignSSH c (sign_request w (read_locals ctx va vb) tok sshPub au)]"
  from write_failed new have evs: "evs = (?head @ pre0) @ [ev0]" by simp
  have ok: "\<forall>e\<in>set (?head @ pre0). write_failure w e = None"
    using write_failed(6,11) by (auto simp: list_all_iff prepare_no_write_failure)
  from evs split have "(?head @ pre0) @ [ev0] = pre @ ev # post" by simp
  from failure_position[OF this ok failed]
  have pos: "pre = ?head @ pre0" "ev = ev0" "post = []" by simp_all
  have "apply_writes pre (fs s) = apply_writes pre0 (fs s)"
    unfolding pos(1) using write_failed(11)
    by (simp add: apply_writes_def)
       (metis apply_writes_def apply_writes_prepare)
  with write_failed(7,8,9) pos failed show ?thesis by simp
next
  case (completed va vb es c tok sshPub priv au resp rep)
  with new have "evs = EvNewCertificateFlow (password_file_set ctx) # es @
      [EvSignSSH c (sign_request w (read_locals ctx va vb) tok sshPub au)] @
      planned_writes w (read_locals ctx va vb) sshPub priv au resp @ rep"
    by simp
  with completed(6,9,10) have "\<forall>e\<in>set evs. write_failure w e = None"
    by (auto simp: list_all_iff prepare_no_write_failure report_no_write_failure)
  with split failed show ?thesis by simp
qed

text \<open>
  With add-user and a disk that refuses the certificate: the private and the public key
  are on disk, the error is the one of the write.
\<close>

theorem write_failure_aborts_without_rollback_witness:
  "write_failure full_disk_world
     (last (trace (snd (sshCertificateAction full_disk_world add_user_ctx init_state)))) =
     Some (External ''no space left on device'') \<and>
   fst (sshCertificateAction full_disk_world add_user_ctx init_state) =
     Some (External ''no space left on device'') \<and>
   fs (snd (sshCertificateAction full_disk_world add_user_ctx init_state)) =
     apply_writes
       (butlast (trace (snd (sshCertificateAction full_disk_world add_user_ctx init_state))))
       (fs init_state)"
proof -
  let ?r = "sshCertificateAction full_disk_world add_user_ctx init_state"
  have t: "trace (snd ?r) = trace init_state @ trace (snd ?r)"
    by (simp add: init_state_def)
  have ne: "trace (snd ?r) \<noteq> []" by (simp add: run_defs example_defs)
  then have sp: "trace (snd ?r) = butlast (trace (snd ?r)) @ last (trace (snd ?r)) # []"
    by simp
  have f: "write_failure full_disk_world (last (trace (snd ?r))) =
           Some (External ''no space left on device'')"
    by (simp add: run_defs example_defs)
  from write_failure_aborts_without_rollback[OF surjective_pairing t sp f] f
  show ?thesis by simp
qed

subsection \<open>C9: the round trip of the authorized-key line\<close>

text \<open>
  Claim C9, as stated, fails for the subjects that the reading of a line does not give
  back: a subject with a line feed or a carriage return is cut there, and white space at
  the start or the end of a subject (a blank, or a Unicode space such as U+00A0) is
  dropped.
\<close>

theorem round_trip_loses_line_break_and_blank:
  "ssh_ParseAuthorizedKey Some
     (marshalPublicKey example_world example_key (''mariano'' @ [LF] @ ''work'')) =
     Some (''key0'', ''mariano'') \<and>
   ssh_ParseAuthorizedKey Some
     (marshalPublicKey example_world example_key (''mariano'' @ [CR] @ ''work'')) =
     Some (''key0'', ''mariano'') \<and>
   ssh_ParseAuthorizedKey Some (marshalPublicKey example_world example_key ''mariano@work '') =
     Some (''key0'', ''mariano@work'') \<and>
   ssh_ParseAuthorizedKey Some (marshalPublicKey example_world example_key '' mariano@work'') =
     Some (''key0'', ''mariano@work'') \<and>
   ssh_ParseAuthorizedKey Some
     (marshalPublicKey example_world example_key (''mariano'' @ [CHR 0xC2, CHR 0xA0])) =
     Some (''key0'', ''mariano'')"
  by (simp add: ssh_ParseAuthorizedKey_def marshalPublicKey_def example_world_def example_key_def
        ssh_MarshalAuthorizedKey_def LF_def CR_def parseAuthorizedKey_def trim_eval
        is_blank_def Let_def)

text \<open>
  Claim C9, amended. For every key or certificate (its type name and its base64 text are
  words of ASCII characters without white space, the type name not starting with
  \<open>#\<close>) and for every subject that has no line feed and no carriage return in it and
  neither starts nor ends with white space: reading the line that \<open>marshalPublicKey\<close>
  writes gives the wire bytes of the key and the subject as the comment.
\<close>

theorem authorized_key_round_trip:
  assumes w: "MarshalAuthorizedKey w = ssh_MarshalAuthorizedKey enc"
      and T: "plain_word (keyType key)" "hd (keyType key) \<noteq> CHR ''#''"
      and E: "plain_word (enc (Marshal key))" "dec (enc (Marshal key)) = Some (Marshal key)"
      and S: "trimmed_comment subj"
  shows "ssh_ParseAuthorizedKey dec (marshalPublicKey w key subj) = Some (Marshal key, subj)"
proof -
  let ?t = "keyType key" and ?e = "enc (Marshal key)"
  let ?tail = "if subj = [] then [] else '' '' @ subj"
  let ?x = "?t @ '' '' @ ?e @ '' '' @ subj"
  let ?l = "?t @ '' '' @ ?e @ ?tail"
  from T have t: "?t \<noteq> []" "\<forall>c\<in>set ?t. plain c" by (simp_all add: plain_word_def)
  from E have e: "?e \<noteq> []" "\<forall>c\<in>set ?e. plain c" by (simp_all add: plain_word_def)
  from S have s: "LF \<notin> set subj" "CR \<notin> set subj"
    "\<not> starts_with_space subj" "\<not> ends_with_space subj"
    by (simp_all add: trimmed_comment_def)
  have sp: "is_blank (CHR '' '')" "CHR '' '' \<noteq> LF" "CHR '' '' \<noteq> CR"
    by (simp_all add: is_blank_def LF_def CR_def)
  have nolf: "LF \<notin> set ?x"
    using t e s sp by (auto dest: plain_facts)
  have nocr: "\<forall>c\<in>set ?x. c \<noteq> CR"
    using t e s sp by (auto dest: plain_facts)
  have m: "marshalPublicKey w key subj = ?x @ LF # []"
    by (simp add: marshalPublicKey_ssh[OF w])
  have lines: "lines_of (marshalPublicKey w key subj) = [?x, []]"
    unfolding m lines_of_line[OF nolf] by simp
  have cut: "takeWhile (\<lambda>c. c \<noteq> CR) ?x = ?x"
    using nocr by (simp only: takeWhile_eq_all_conv)
  have hd_t: "plain (hd ?t)" using t by (cases ?t) auto
  have last_e: "plain (last ?e)" using e by auto
  have start: "\<not> starts_with_space (?t @ y)" for y
    using t hd_t by (intro plain_hd_no_space) (simp_all add: hd_append)
  have trim: "TrimSpace ?x = ?l"
  proof (cases "subj = []")
    case True
    have "TrimSpace ((?t @ '' '' @ ?e) @ '' '') = TrimSpace (?t @ '' '' @ ?e)"
      using start[of "'' '' @ ?e @ '' ''"] start[of "'' '' @ ?e"]
      by (intro TrimSpace_trailing) simp_all
    also have "\<dots> = ?t @ '' '' @ ?e"
      using start[of "'' '' @ ?e"] e last_e
      by (intro TrimSpace_trimmed plain_last_no_space) simp_all
    finally show ?thesis using True by simp
  next
    case False
    from blank_before_no_space[OF False s(4), of "?t @ '' '' @ ?e"]
    have "\<not> ends_with_space ?x" by simp
    with start[of "'' '' @ ?e @ '' '' @ subj"] have "TrimSpace ?x = ?x"
      by (intro TrimSpace_trimmed) simp_all
    with False show ?thesis by simp
  qed
  have l1: "?l \<noteq> []" "hd ?l \<noteq> CHR ''#''" using t T(2) by (simp_all add: hd_append)
  have l2: "\<exists>c\<in>set ?l. is_blank c" using sp by auto
  have l3: "dropWhile (\<lambda>c. \<not> is_blank c) ?l = '' '' @ ?e @ ?tail"
    using t sp by (simp add: dropWhile_append2 plain_facts)
  have "parse_lines dec [?x, []] = parseAuthorizedKey dec ('' '' @ ?e @ ?tail)"
    using l1 l2 unfolding parse_lines.simps Let_def cut trim l3 by simp
  also have "\<dots> = Some (Marshal key, subj)"
    using E S by (rule parseAuthorizedKey_fields[where dec=dec and e="enc (Marshal key)"])
  finally show ?thesis by (simp add: ssh_ParseAuthorizedKey_def lines)
qed

text \<open>The subject \<open>mariano@work\<close>, and a subject that ends in a letter outside ASCII.\<close>

theorem authorized_key_round_trip_witness:
  "trimmed_comment ''mariano@work'' \<and>
   ssh_ParseAuthorizedKey Some (marshalPublicKey example_world example_key ''mariano@work'') =
     Some (''key0'', ''mariano@work'') \<and>
   trimmed_comment (''jos'' @ [CHR 0xC3, CHR 0xA9]) \<and>
   ssh_ParseAuthorizedKey Some
     (marshalPublicKey example_world example_key (''jos'' @ [CHR 0xC3, CHR 0xA9])) =
     Some (''key0'', ''jos'' @ [CHR 0xC3, CHR 0xA9])"
proof -
  have w: "MarshalAuthorizedKey example_world = ssh_MarshalAuthorizedKey (\<lambda>b. b)"
    by (simp add: example_world_def)
  have t: "plain_word (keyType example_key)" "hd (keyType example_key) \<noteq> CHR ''#''"
    by (simp_all add: example_key_def plain_word_def plain_def)
  have e: "plain_word (Marshal example_key)"
    by (simp add: example_key_def plain_word_def plain_def)
  have d: "Some (Marshal example_key) = Some (Marshal example_key)" by simp
  have s: "trimmed_comment ''mariano@work''"
    by (simp add: trimmed_comment_def trim_eval LF_def CR_def)
  have s': "trimmed_comment (''jos'' @ [CHR 0xC3, CHR 0xA9])"
    by (simp add: trimmed_comment_def trim_eval LF_def CR_def)
  from authorized_key_round_trip[where w = example_world and enc = "\<lambda>b. b" and dec = Some and key = example_key
            and subj = "''mariano@work''"] w t e d s
  have "ssh_ParseAuthorizedKey Some (marshalPublicKey example_world example_key ''mariano@work'') =
     Some (''key0'', ''mariano@work'')"
    by (simp add: example_key_def)
  moreover
  from authorized_key_round_trip[where w = example_world and enc = "\<lambda>b. b" and dec = Some and key = example_key
            and subj = "''jos'' @ [CHR 0xC3, CHR 0xA9]"] w t e d s'
  have "ssh_ParseAuthorizedKey Some
     (marshalPublicKey example_world example_key (''jos'' @ [CHR 0xC3, CHR 0xA9])) =
     Some (''key0'', ''jos'' @ [CHR 0xC3, CHR 0xA9])"
    by (simp add: example_key_def)
  ultimately show ?thesis using s s' by simp
qed

subsection \<open>C10: the password file of the private key\<close>

text \<open>
  Claim C10. When the action serializes a private key, the collaborators before it were
  given the context whose flag \<open>password-file\<close> holds the value of
  \<open>provisioner-password-file\<close>; yet the key is serialized either with no password or
  with the password source fixed by the flags \<open>no-password\<close>, \<open>insecure\<close> and
  \<open>password-file\<close> as they were at the start, and a password file used for it is the
  one the flag \<open>password-file\<close> named at the start.
\<close>

theorem private_key_password_ignores_flag_overwrite:
  assumes run: "sshCertificateAction w ctx s = (r, s')"
      and new: "trace s' = trace s @ evs"
      and ev: "EvSerialize k opts \<in> set evs"
  shows "(\<exists>rest. evs = EvNewCertificateFlow
                    (ctx\<lparr>flag_password_file := flag_provisioner_password_file ctx\<rparr>) # rest) \<and>
         (serialize_password opts = None \<or>
          serialize_password opts =
            password_policy (flag_no_password ctx) (flag_insecure ctx) (flag_password_file ctx)) \<and>
         (\<forall>f. serialize_password opts = Some (FromPasswordFile f) \<longrightarrow> f = flag_password_file ctx)"
proof -
  have "is_write (EvSerialize k opts)" by simp
  from run_write_events[OF run new ev this] obtain va vb sshPub priv au resp where
    ok: "(priv = None) = flag_sign ctx" "(au = None) = (\<not> flag_add_user ctx)"
    "EvSerialize k opts \<in> set (planned_writes w (read_locals ctx va vb) sshPub priv au resp)"
    by blast
  from planned_serialize[OF ok(3,1,2)]
  have pw: "serialize_password opts = None \<or>
          serialize_password opts =
            password_policy (flag_no_password ctx) (flag_insecure ctx) (flag_password_file ctx)"
    by (auto simp: private_key_options_password)
  then have pwfile: "\<forall>f. serialize_password opts = Some (FromPasswordFile f) \<longrightarrow> f = flag_password_file ctx"
    by (auto simp: password_policy_def split: if_splits)
  have "ev \<in> set evs \<Longrightarrow> \<exists>rest. evs = EvNewCertificateFlow (password_file_set ctx) # rest" for ev
    using run
  proof (cases rule: run_cases)
    case rejected
    assume "ev \<in> set evs"
    with rejected new show ?thesis by simp
  qed (use new in auto)
  with ev pw pwfile show ?thesis by (auto simp: password_file_set_def)
qed

theorem private_key_password_ignores_flag_overwrite_witness:
  "flag_password_file add_user_ctx = ''pass.txt'' \<and>
   flag_provisioner_password_file add_user_ctx = ''prov.txt'' \<and>
   EvSerialize (Some (PrivateKey 0)) [ToFile ''id_ecdsa'' mode_0600, WithPasswordFile ''pass.txt'']
     \<in> set (trace (snd (sshCertificateAction example_world add_user_ctx init_state))) \<and>
   hd (trace (snd (sshCertificateAction example_world add_user_ctx init_state))) =
     EvNewCertificateFlow (add_user_ctx\<lparr>flag_password_file := ''prov.txt''\<rparr>)"
proof -
  let ?r = "sshCertificateAction example_world add_user_ctx init_state"
  have t: "trace (snd ?r) = trace init_state @ trace (snd ?r)"
    by (simp add: init_state_def)
  have ev: "EvSerialize (Some (PrivateKey 0))
              [ToFile ''id_ecdsa'' mode_0600, WithPasswordFile ''pass.txt''] \<in> set (trace (snd ?r))"
    by (simp add: run_defs example_defs)
  have p: "flag_password_file add_user_ctx = ''pass.txt''"
          "flag_provisioner_password_file add_user_ctx = ''prov.txt''"
    by (simp_all add: add_user_ctx_def example_ctx_def)
  from private_key_password_ignores_flag_overwrite[OF surjective_pairing t ev]
  obtain rest where "trace (snd ?r) =
      EvNewCertificateFlow (add_user_ctx\<lparr>flag_password_file := ''prov.txt''\<rparr>) # rest"
    unfolding p by blast
  then have "hd (trace (snd ?r)) =
      EvNewCertificateFlow (add_user_ctx\<lparr>flag_password_file := ''prov.txt''\<rparr>)"
    by simp
  with ev p show ?thesis by simp
qed

end
